theory Spec2Isabelle
  imports Main "HOL-Library.AList"
begin

section \<open>Python string primitives\<close>

text \<open>
  Python strings are modelled as \<^typ>\<open>string\<close>, one \<^typ>\<open>char\<close> per code point,
  so over the code points 0 to 255. The whitespace of \<^verbatim>\<open>str.strip\<close> and
  \<^verbatim>\<open>str.split\<close> is that of \<^verbatim>\<open>str.isspace\<close> in this range: tab to carriage
  return (9 to 13), the four separators 28 to 31, the space, the next-line control 133 and
  the no-break space 160. \<^verbatim>\<open>upper\<close> and \<^verbatim>\<open>lower\<close> change the letters a to z and
  A to Z. Python also changes letters above 127, but the program only tests the
  upper-cased name for being a reserved device name and compares lower-cased text with
  the command words and the suffix \<^verbatim>\<open>.json\<close>, all ASCII: \<^verbatim>\<open>lower\<close> maps no code
  point above 127 to an ASCII character, and \<^verbatim>\<open>upper\<close> maps only the sharp s (223)
  to ASCII, to \<^verbatim>\<open>SS\<close>, which occurs in no reserved name. So these tests have the same
  outcome here.
\<close>

definition isspace :: "char \<Rightarrow> bool" where
  "isspace c =
     (let n = (of_char c :: nat)
      in (9 \<le> n \<and> n \<le> 13) \<or> (28 \<le> n \<and> n \<le> 32) \<or> n = 133 \<or> n = 160)"

definition upper_char :: "char \<Rightarrow> char" where
  "upper_char c = (let n = (of_char c :: nat) in if 97 \<le> n \<and> n \<le> 122 then char_of (n - 32) else c)"

definition lower_char :: "char \<Rightarrow> char" where
  "lower_char c = (let n = (of_char c :: nat) in if 65 \<le> n \<and> n \<le> 90 then char_of (n + 32) else c)"

definition str_upper :: "string \<Rightarrow> string" where
  "str_upper s = map upper_char s"

definition str_lower :: "string \<Rightarrow> string" where
  "str_lower s = map lower_char s"

definition str_strip :: "string \<Rightarrow> string" where
  "str_strip s = rev (dropWhile isspace (rev (dropWhile isspace s)))"

text \<open>\<^verbatim>\<open>s.replace(ch, "")\<close> for a one-character \<^verbatim>\<open>ch\<close>.\<close>

definition str_remove :: "char \<Rightarrow> string \<Rightarrow> string" where
  "str_remove ch s = filter (\<lambda>c. c \<noteq> ch) s"

definition str_endswith :: "string \<Rightarrow> string \<Rightarrow> bool" where
  "str_endswith s suffix = (length suffix \<le> length s \<and> drop (length s - length suffix) s = suffix)"

text \<open>
  \<^verbatim>\<open>s.split(maxsplit=1)\<close>: leading whitespace is skipped, the first run of
  non-whitespace is the head, and what follows the next whitespace run, if anything, is
  the second part, with its own trailing whitespace kept.
\<close>

definition str_split1 :: "string \<Rightarrow> string list" where
  "str_split1 s =
     (let s1 = dropWhile isspace s;
          head = takeWhile (\<lambda>c. \<not> isspace c) s1;
          rest = dropWhile isspace (dropWhile (\<lambda>c. \<not> isspace c) s1)
      in if s1 = [] then [] else if rest = [] then [head] else [head, rest])"

text \<open>\<^verbatim>\<open>str(i)\<close> for a non-negative integer: its decimal digits.\<close>

fun str_nat :: "nat \<Rightarrow> string" where
  "str_nat n = (if n < 10 then [char_of (48 + n)] else str_nat (n div 10) @ [char_of (48 + n mod 10)])"

declare str_nat.simps [simp del]

text \<open>The format specification \<^verbatim>\<open>:<16\<close>: pad with spaces on the right.\<close>

definition ljust :: "nat \<Rightarrow> string \<Rightarrow> string" where
  "ljust n s = s @ replicate (n - length s) (CHR '' '')"

section \<open>Naming: \<^verbatim>\<open>sanitize_filename\<close>\<close>

definition INVALID_FILENAME_CHARS :: string where
  "INVALID_FILENAME_CHARS =
     [CHR ''<'', CHR ''>'', CHR '':'', CHR 0x22, CHR ''/'', CHR 0x5C, CHR ''|'', CHR ''?'', CHR ''*'']"

definition WINDOWS_RESERVED :: "string list" where
  "WINDOWS_RESERVED =
     [''CON'', ''PRN'', ''AUX'', ''NUL'',
      ''COM1'', ''COM2'', ''COM3'', ''COM4'', ''COM5'', ''COM6'', ''COM7'', ''COM8'', ''COM9'',
      ''LPT1'', ''LPT2'', ''LPT3'', ''LPT4'', ''LPT5'', ''LPT6'', ''LPT7'', ''LPT8'', ''LPT9'']"

text \<open>
  The loop \<^verbatim>\<open>for ch in INVALID_FILENAME_CHARS: name = name.replace(ch, "")\<close> is the
  left fold; then the strip and the reserved-name test on the upper-cased result.
\<close>

definition sanitize_filename :: "string \<Rightarrow> string" where
  "sanitize_filename nm =
     (let n1 = foldl (\<lambda>s ch. str_remove ch s) nm INVALID_FILENAME_CHARS;
          n2 = str_strip n1
      in if str_upper n2 \<in> set WINDOWS_RESERVED then ''_'' @ n2 else n2)"

text \<open>
  The specification's wording of the reserved test: the name equals some reserved device
  name when case is ignored.
\<close>

definition equals_ignoring_case :: "string \<Rightarrow> string \<Rightarrow> bool" where
  "equals_ignoring_case a b = (str_lower a = str_lower b)"

definition matches_reserved :: "string \<Rightarrow> bool" where
  "matches_reserved s = list_ex (equals_ignoring_case s) WINDOWS_RESERVED"

text \<open>A string that has no whitespace at either end.\<close>

definition trimmed :: "string \<Rightarrow> bool" where
  "trimmed s = (s = [] \<or> (\<not> isspace (hd s) \<and> \<not> isspace (last s)))"

section \<open>The storage directory\<close>

text \<open>
  A message is the dictionary \<^verbatim>\<open>{"role": ..., "content": ...}\<close>. A saved
  conversation is the dictionary with the keys \<^verbatim>\<open>name\<close>, \<^verbatim>\<open>created\<close> and
  \<^verbatim>\<open>conversation\<close>; in a file its conversation is the message sequence itself, in
  memory it is a reference to a list object (see the heap below), so the record type is
  parametric in that field.
\<close>

record message =
  role :: string
  content :: string

record 'c entry =
  name :: string
  created :: string
  conversation :: 'c

text \<open>
  What \<^verbatim>\<open>load_history\<close> can find in a file: either a JSON object that has the three
  required keys, with values of the types \<^verbatim>\<open>save_conversation\<close> writes (a string as
  name and as creation time, a list of messages as conversation), or anything else (text
  that does not decode, a value that is not an object, an object that lacks a key), for
  which the \<^verbatim>\<open>try\<close> block adds nothing. An object that has the three keys with
  values of other types is not represented.
\<close>

datatype file_content = Unreadable | JsonRecord "message list entry"

text \<open>
  The history directory is the list of its files in the order \<^verbatim>\<open>os.listdir\<close>
  enumerates them, each with its content. A path
  \<^verbatim>\<open>os.path.join(history_dir, f"{name}.json")\<close> is represented by the file name
  \<^verbatim>\<open>f"{name}.json"\<close> inside that directory, and file names are compared exactly.
  Writing always succeeds in this model.
\<close>

type_synonym directory = "(string \<times> file_content) list"

definition json_path :: "string \<Rightarrow> string" where
  "json_path base = base @ ''.json''"

definition os_listdir :: "directory \<Rightarrow> string list" where
  "os_listdir d = map fst d"

definition os_path_exists :: "directory \<Rightarrow> string \<Rightarrow> bool" where
  "os_path_exists d path = (map_of d path \<noteq> None)"

definition write_file :: "directory \<Rightarrow> string \<Rightarrow> file_content \<Rightarrow> directory" where
  "write_file d path f = AList.update path f d"

definition os_remove :: "directory \<Rightarrow> string \<Rightarrow> directory" where
  "os_remove d path = AList.delete path d"

section \<open>Naming: \<^verbatim>\<open>unique_path\<close>\<close>

definition candidate_path :: "string \<Rightarrow> nat \<Rightarrow> string" where
  "candidate_path base i = json_path (base @ ''-'' @ str_nat i)"

text \<open>
  The candidate names of the loop are pairwise distinct, because \<^const>\<open>str_nat\<close> has a
  left inverse. So only finitely many indices from \<open>i\<close> on are taken in a directory, and
  their number is the measure that shows the \<^verbatim>\<open>while True\<close> loop terminates.
\<close>

definition digits_value :: "string \<Rightarrow> nat" where
  "digits_value s = foldl (\<lambda>a c. 10 * a + (of_char c - 48)) 0 s"

lemma digits_value_str_nat: "digits_value (str_nat n) = n"
proof (induction n rule: str_nat.induct)
  case (1 n)
  show ?case
  proof (cases "n < 10")
    case True
    then show ?thesis
      by (subst str_nat.simps) (simp add: digits_value_def)
  next
    case False
    have "digits_value (str_nat n) = 10 * digits_value (str_nat (n div 10)) + n mod 10"
      using False by (subst str_nat.simps) (simp add: digits_value_def)
    with 1 False show ?thesis by simp
  qed
qed

lemma str_nat_inj: "str_nat i = str_nat j \<Longrightarrow> i = j"
  by (metis digits_value_str_nat)

lemma candidate_path_inj: "candidate_path base i = candidate_path base j \<Longrightarrow> i = j"
  by (simp add: candidate_path_def json_path_def str_nat_inj)

definition taken_from :: "directory \<Rightarrow> string \<Rightarrow> nat \<Rightarrow> nat set" where
  "taken_from d base i = {j. i \<le> j \<and> os_path_exists d (candidate_path base j)}"

lemma finite_taken_from: "finite (taken_from d base i)"
proof -
  have "taken_from d base i \<subseteq> {j. candidate_path base j \<in> set (map fst d)}"
    by (auto simp: taken_from_def os_path_exists_def map_of_eq_None_iff)
  moreover have "finite {j. candidate_path base j \<in> set (map fst d)}"
    by (rule finite_vimageI[unfolded vimage_def, of "set (map fst d)" "candidate_path base"])
       (auto simp: inj_on_def dest: candidate_path_inj)
  ultimately show ?thesis by (rule finite_subset)
qed

text \<open>
  The loop of \<^verbatim>\<open>unique_path\<close>, entered with \<open>i = 2\<close>: return the first candidate
  whose file does not exist.
\<close>

function unique_loop :: "directory \<Rightarrow> string \<Rightarrow> nat \<Rightarrow> string \<times> string" where
  "unique_loop d base i =
     (let candidate = base @ ''-'' @ str_nat i;
          path = json_path candidate
      in if \<not> os_path_exists d path then (candidate, path)
         else unique_loop d base (i + 1))"
  by pat_completeness auto
termination
proof (relation "measure (\<lambda>(d, base, i). card (taken_from d base i))")
  show "wf (measure (\<lambda>(d, base, i). card (taken_from d base i)))" by simp
next
  fix d :: directory and base :: string and i :: nat and x xa
  assume x: "x = base @ ''-'' @ str_nat i" and xa: "xa = json_path x"
    and ex: "\<not> \<not> os_path_exists d xa"
  have mem: "i \<in> taken_from d base i"
    using x xa ex by (simp add: taken_from_def candidate_path_def)
  have "taken_from d base (i + 1) \<subseteq> taken_from d base i - {i}"
    by (auto simp: taken_from_def)
  then have "card (taken_from d base (i + 1)) \<le> card (taken_from d base i - {i})"
    by (intro card_mono) (auto simp: finite_taken_from)
  also have "\<dots> < card (taken_from d base i)"
    using mem by (intro card_Diff1_less) (auto simp: finite_taken_from)
  finally show "((d, base, i + 1), (d, base, i)) \<in> measure (\<lambda>(d, base, i). card (taken_from d base i))"
    by simp
qed

declare unique_loop.simps [simp del]

definition unique_path :: "directory \<Rightarrow> string \<Rightarrow> string \<times> string" where
  "unique_path base_dir nm =
     (let base = nm;
          path = json_path base
      in if \<not> os_path_exists base_dir path then (base, path)
         else unique_loop base_dir base 2)"

section \<open>The session state\<close>

text \<open>
  \<^verbatim>\<open>AppState\<close>, together with what its operations read and write outside it. The field
  \<open>history_dir\<close> holds the content of the directory that the path of the same name
  denotes. \<open>mem\<close> and the \<open>conversation\<close> of a catalog entry are references to list
  objects; \<open>heap\<close> maps a reference to the messages of its list and \<open>next_ref\<close> is the
  next unused reference, so that \<^verbatim>\<open>.copy()\<close> makes a new object, and
  \<^verbatim>\<open>.append\<close> and \<^verbatim>\<open>.clear()\<close> change one in place. The lists \<open>history\<close> and
  \<open>history_by_name\<close> are \<^verbatim>\<open>state.history\<close> and the dictionary
  \<^verbatim>\<open>state.history_by_name\<close> in insertion order. \<open>stdout\<close> collects the arguments of
  \<^verbatim>\<open>print\<close>.
\<close>

type_synonym ref = nat

record app_state =
  history_dir :: directory
  current_name :: "string option"
  mem :: ref
  history :: "ref entry list"
  history_by_name :: "(string \<times> ref entry) list"
  heap :: "ref \<Rightarrow> message list"
  next_ref :: ref
  stdout :: "string list"

text \<open>
  The exceptions that leave a function: \<^verbatim>\<open>SystemExit\<close> of \<^verbatim>\<open>cmd_exit\<close>, an error of
  the model call, and the two errors that the dispatcher would raise on a table or a line
  it never meets.
\<close>

datatype exn = SystemExit | APIError string | IndexError | TypeError

type_synonym 'a result = "(exn + 'a) \<times> app_state"

text \<open>
  What one operation reads from its surroundings: the answer of the chat model to a
  message list (\<^verbatim>\<open>state.client.responses.create(...).output_text\<close>, or the exception it
  raises), \<^verbatim>\<open>datetime.now().isoformat(timespec="seconds")\<close> and
  \<^verbatim>\<open>datetime.now().strftime("%Y-%m-%d_%H-%M-%S")\<close>.
\<close>

record env =
  client :: "message list \<Rightarrow> exn + string"
  now_isoformat :: string
  now_strftime :: string

definition active :: "app_state \<Rightarrow> message list" where
  "active w = heap w (mem w)"

definition py_print :: "string \<Rightarrow> app_state \<Rightarrow> app_state" where
  "py_print line w = w\<lparr>stdout := stdout w @ [line]\<rparr>"

text \<open>A new list object with the given messages.\<close>

definition new_list :: "message list \<Rightarrow> app_state \<Rightarrow> ref \<times> app_state" where
  "new_list xs w = (next_ref w, w\<lparr>heap := (heap w)(next_ref w := xs), next_ref := Suc (next_ref w)\<rparr>)"

text \<open>\<^verbatim>\<open>state.mem.append(m)\<close> and \<^verbatim>\<open>state.mem.clear()\<close>: the object itself changes.\<close>

definition mem_append :: "message \<Rightarrow> app_state \<Rightarrow> app_state" where
  "mem_append m w = w\<lparr>heap := (heap w)(mem w := heap w (mem w) @ [m])\<rparr>"

definition mem_clear :: "app_state \<Rightarrow> app_state" where
  "mem_clear w = w\<lparr>heap := (heap w)(mem w := [])\<rparr>"

text \<open>
  \<^verbatim>\<open>json.load\<close> of a record file builds a new dictionary whose conversation is a new
  list; \<^verbatim>\<open>json.dump\<close> writes the messages the entry's list holds.
\<close>

definition json_load :: "message list entry \<Rightarrow> app_state \<Rightarrow> ref entry \<times> app_state" where
  "json_load e w =
     (let (r, w1) = new_list (conversation e) w
      in (\<lparr>name = name e, created = created e, conversation = r\<rparr>, w1))"

definition json_dump :: "(ref \<Rightarrow> message list) \<Rightarrow> ref entry \<Rightarrow> file_content" where
  "json_dump h e = JsonRecord \<lparr>name = name e, created = created e, conversation = h (conversation e)\<rparr>"

section \<open>History index: \<^verbatim>\<open>load_history\<close>\<close>

fun load_files :: "string list \<Rightarrow> app_state \<Rightarrow> app_state" where
  "load_files [] w = w"
| "load_files (file # files) w =
     (if \<not> str_endswith (str_lower file) ''.json'' then load_files files w
      else (case map_of (history_dir w) file of
              Some (JsonRecord e) \<Rightarrow>
                (let (entry, w1) = json_load e w
                 in load_files files
                      (w1\<lparr>history := history w1 @ [entry],
                          history_by_name := AList.update (name entry) entry (history_by_name w1)\<rparr>))
            | _ \<Rightarrow> load_files files w))"

definition load_history :: "app_state \<Rightarrow> app_state" where
  "load_history w =
     (let w1 = w\<lparr>history := [], history_by_name := []\<rparr>;
          w2 = load_files (os_listdir (history_dir w1)) w1
      in py_print (''Loaded '' @ str_nat (length (history w2)) @ '' conversations from history.'') w2)"

section \<open>Load and save\<close>

definition load_conversation :: "app_state \<Rightarrow> string \<Rightarrow> app_state" where
  "load_conversation w nm =
     (case map_of (history_by_name w) nm of
        None \<Rightarrow> py_print ''No conversation found with that name.'' w
      | Some entry \<Rightarrow>
          (let (r, w1) = new_list (heap w (conversation entry)) w
           in py_print (''Loaded conversation: '' @ nm) (w1\<lparr>mem := r, current_name := Some nm\<rparr>)))"

definition save_conversation :: "env \<Rightarrow> app_state \<Rightarrow> string \<Rightarrow> app_state" where
  "save_conversation ev w nm =
     (if active w = [] then w
      else
        (let (r, w1) = new_list (active w) w;
             entry = \<lparr>name = nm, created = now_isoformat ev, conversation = r\<rparr>;
             (final_name, path) = unique_path (history_dir w1) nm;
             entry = entry\<lparr>name := final_name\<rparr>;
             w2 = w1\<lparr>history_dir := write_file (history_dir w1) path (json_dump (heap w1) entry)\<rparr>
         in w2\<lparr>history := history w2 @ [entry],
               history_by_name := AList.update final_name entry (history_by_name w2),
               current_name := Some final_name\<rparr>))"

section \<open>The model call\<close>

definition TITLE_PROMPT :: string where
  "TITLE_PROMPT = ''Summarize this conversation into a three word title. No punctuation.''"

definition model_reply :: "env \<Rightarrow> message list \<Rightarrow> exn + string" where
  "model_reply ev messages =
     (case client ev messages of Inl e \<Rightarrow> Inl e | Inr output_text \<Rightarrow> Inr (str_strip output_text))"

text \<open>
  \<^verbatim>\<open>temp = state.mem + [...]\<close> is a list of its own that nothing keeps, so only its
  value is modelled.
\<close>

definition generate_title_from_mem :: "env \<Rightarrow> app_state \<Rightarrow> exn + string" where
  "generate_title_from_mem ev w =
     (let temp = active w @ [\<lparr>role = ''user'', content = TITLE_PROMPT\<rparr>]
      in model_reply ev temp)"

section \<open>The commands\<close>

definition cmd_list :: "app_state \<Rightarrow> app_state" where
  "cmd_list w =
     foldl (\<lambda>w1 entry. py_print (name entry @ '' ('' @ created entry @ '')'') w1)
       (py_print ''Saved Conversations:'' w) (history w)"

definition cmd_new :: "app_state \<Rightarrow> app_state" where
  "cmd_new w = py_print ''Started a new conversation.'' ((mem_clear w)\<lparr>current_name := None\<rparr>)"

text \<open>
  \<^verbatim>\<open>if state.current_name:\<close> holds for a name that is neither \<^verbatim>\<open>None\<close> nor empty, and
  \<^verbatim>\<open>f"{state.current_name}"\<close> formats \<^verbatim>\<open>None\<close> as the word.
\<close>

definition truthy_name :: "string option \<Rightarrow> bool" where
  "truthy_name n = (case n of None \<Rightarrow> False | Some s \<Rightarrow> s \<noteq> [])"

definition format_name :: "string option \<Rightarrow> string" where
  "format_name n = (case n of None \<Rightarrow> ''None'' | Some s \<Rightarrow> s)"

text \<open>Every path of \<^verbatim>\<open>cmd_exit\<close> that the model call does not abort raises \<^verbatim>\<open>SystemExit\<close>.\<close>

definition cmd_exit :: "env \<Rightarrow> app_state \<Rightarrow> unit result" where
  "cmd_exit ev w =
     (if active w = [] then (Inl SystemExit, w)
      else if truthy_name (current_name w) then
        (let w1 = save_conversation ev w (format_name (current_name w));
             w2 = py_print (''Saved as: '' @ format_name (current_name w1)) w1
         in (Inl SystemExit, w2))
      else
        (case generate_title_from_mem ev w of
           Inl e \<Rightarrow> (Inl e, w)
         | Inr title \<Rightarrow>
             (let w1 = py_print title w;
                  nm = (if sanitize_filename title \<noteq> [] then sanitize_filename title
                        else now_strftime ev);
                  w2 = save_conversation ev w1 nm;
                  w3 = py_print (''Saved as: '' @ format_name (current_name w2)) w2
              in (Inl SystemExit, w3))))"

definition cmd_load :: "app_state \<Rightarrow> string \<Rightarrow> app_state" where
  "cmd_load w arg =
     (if arg = [] then py_print ''Usage: load <name>'' w
      else load_conversation w arg)"

text \<open>
  \<^verbatim>\<open>os.remove\<close> is reached only after \<^verbatim>\<open>os.path.exists\<close> has answered yes, so it does
  not raise here.
\<close>

definition cmd_delete :: "app_state \<Rightarrow> string \<Rightarrow> app_state" where
  "cmd_delete w arg =
     (if arg = [] then py_print ''Usage: delete <name>'' w
      else
        (case map_of (history_by_name w) arg of
           None \<Rightarrow> py_print ''No conversation found with that name.'' w
         | Some entry \<Rightarrow>
             (let path = json_path arg
              in if \<not> os_path_exists (history_dir w) path
                 then py_print ''Conversation file not found on disk.'' w
                 else
                   (let w1 = w\<lparr>history_dir := os_remove (history_dir w) path\<rparr>;
                        w2 = w1\<lparr>history := filter (\<lambda>item. name item \<noteq> arg) (history w1)\<rparr>;
                        w3 = w2\<lparr>history_by_name := AList.delete arg (history_by_name w2)\<rparr>;
                        w4 = (if current_name w3 = Some arg then w3\<lparr>current_name := None\<rparr> else w3)
                    in py_print (''Deleted conversation: '' @ arg) w4))))"

text \<open>
  \<^verbatim>\<open>cmd_help\<close> reads the command and the description of each table entry; the table's
  own \<^verbatim>\<open>help\<close> entry refers back to the table, so the rows are passed as pairs.
\<close>

definition cmd_help :: "(string \<times> string) list \<Rightarrow> app_state \<Rightarrow> app_state" where
  "cmd_help rows w =
     foldl (\<lambda>w1 (c, d). py_print (''  '' @ ljust 16 c @ '' '' @ d) w1) (py_print ''Commands:'' w) rows"

definition cmd_reload :: "app_state \<Rightarrow> app_state" where
  "cmd_reload w = load_history w"

definition COMPRESS_PROMPT :: string where
  "COMPRESS_PROMPT =
     ''Take all conversation context so far and condense it into a comprehensive summary '' @
     ''that preserves key facts, decisions, constraints, and open tasks.''"

definition cmd_compress :: "env \<Rightarrow> app_state \<Rightarrow> unit result" where
  "cmd_compress ev w =
     (if active w = [] then (Inr (), py_print ''Nothing to compress.'' w)
      else
        (let w1 = mem_append \<lparr>role = ''user'', content = COMPRESS_PROMPT\<rparr> w
         in case model_reply ev (active w1) of
              Inl e \<Rightarrow> (Inl e, w1)
            | Inr summary \<Rightarrow>
                (let (r, w2) = new_list [\<lparr>role = ''assistant'', content = summary\<rparr>] w1
                 in (Inr (), py_print ''Conversation compressed.'' (w2\<lparr>mem := r\<rparr>)))))"

section \<open>The dispatcher\<close>

text \<open>
  An entry of the command table. A handler is called with an argument (\<open>Some arg\<close>) or
  with none; \<open>takes_arg\<close> is \<^verbatim>\<open>cmd.get("takes_arg", False)\<close>, false for an entry that
  has no such key.
\<close>

type_synonym handler = "string option \<Rightarrow> app_state \<Rightarrow> unit result"

record command_entry =
  command :: string
  func :: handler
  description :: string
  takes_arg :: bool

text \<open>
  \<^verbatim>\<open>parts[0]\<close> of an empty list would raise \<^verbatim>\<open>IndexError\<close>; the argument is
  \<^verbatim>\<open>parts[1].strip()\<close> when there are two parts and empty otherwise. An exception of
  the handler leaves \<^verbatim>\<open>run_command\<close> as it is.
\<close>

definition run_command :: "command_entry list \<Rightarrow> string \<Rightarrow> app_state \<Rightarrow> bool result" where
  "run_command command_table line w =
     (let normalized = str_strip line
      in if normalized = [] then (Inr False, w)
         else
           (case str_split1 normalized of
              [] \<Rightarrow> (Inl IndexError, w)
            | p0 # ps \<Rightarrow>
                (let nm = str_lower p0;
                     arg = (case ps of [p1] \<Rightarrow> str_strip p1 | _ \<Rightarrow> [])
                 in case find (\<lambda>c. command c = nm) command_table of
                      None \<Rightarrow> (Inr False, w)
                    | Some cmd \<Rightarrow>
                        if takes_arg cmd then
                          (case func cmd (Some arg) w of
                             (Inl e, w1) \<Rightarrow> (Inl e, w1)
                           | (Inr u, w1) \<Rightarrow> (Inr True, w1))
                        else if arg \<noteq> [] then (Inr False, w)
                        else
                          (case func cmd None w of
                             (Inl e, w1) \<Rightarrow> (Inl e, w1)
                           | (Inr u, w1) \<Rightarrow> (Inr True, w1)))))"

section \<open>The command table and the loop of \<^verbatim>\<open>main\<close>\<close>

text \<open>
  The lambdas of the table: one without a parameter raises \<^verbatim>\<open>TypeError\<close> when it is
  given an argument, and \<^verbatim>\<open>load\<close> and \<^verbatim>\<open>delete\<close> pass \<^verbatim>\<open>arg or ""\<close>.
\<close>

definition no_arg :: "(app_state \<Rightarrow> unit result) \<Rightarrow> handler" where
  "no_arg f = (\<lambda>arg w. case arg of None \<Rightarrow> f w | Some a \<Rightarrow> (Inl TypeError, w))"

definition with_arg :: "(app_state \<Rightarrow> string \<Rightarrow> app_state) \<Rightarrow> handler" where
  "with_arg f = (\<lambda>arg w. (Inr (), f w (case arg of None \<Rightarrow> [] | Some a \<Rightarrow> a)))"

definition returns :: "(app_state \<Rightarrow> app_state) \<Rightarrow> app_state \<Rightarrow> unit result" where
  "returns f = (\<lambda>w. (Inr (), f w))"

definition command_rows :: "(string \<times> string) list" where
  "command_rows =
     [(''help'', ''Show available commands''),
      (''list'', ''List saved conversations''),
      (''load'', ''Load a saved conversation''),
      (''delete'', ''Delete a saved conversation''),
      (''compress'', ''Compress current conversation into a summary''),
      (''reload'', ''Reload saved conversations from disk''),
      (''new'', ''Start a new conversation''),
      (''exit'', ''Exit the application'')]"

definition command_table :: "env \<Rightarrow> command_entry list" where
  "command_table ev =
     [\<lparr>command = ''help'', func = no_arg (returns (cmd_help command_rows)),
        description = ''Show available commands'', takes_arg = False\<rparr>,
      \<lparr>command = ''list'', func = no_arg (returns cmd_list),
        description = ''List saved conversations'', takes_arg = False\<rparr>,
      \<lparr>command = ''load'', func = with_arg cmd_load,
        description = ''Load a saved conversation'', takes_arg = True\<rparr>,
      \<lparr>command = ''delete'', func = with_arg cmd_delete,
        description = ''Delete a saved conversation'', takes_arg = True\<rparr>,
      \<lparr>command = ''compress'', func = no_arg (cmd_compress ev),
        description = ''Compress current conversation into a summary'', takes_arg = False\<rparr>,
      \<lparr>command = ''reload'', func = no_arg (returns cmd_reload),
        description = ''Reload saved conversations from disk'', takes_arg = False\<rparr>,
      \<lparr>command = ''new'', func = no_arg (returns cmd_new),
        description = ''Start a new conversation'', takes_arg = False\<rparr>,
      \<lparr>command = ''exit'', func = no_arg (cmd_exit ev),
        description = ''Exit the application'', takes_arg = False\<rparr>]"

definition YELLOW :: string where
  "YELLOW = [CHR 0x1B, CHR ''['', CHR ''3'', CHR ''3'', CHR ''m'']"

definition RESET :: string where
  "RESET = [CHR 0x1B, CHR ''['', CHR ''0'', CHR ''m'']"

text \<open>
  One pass through the body of \<^verbatim>\<open>while True\<close> for the line \<open>user\<close> that the prompt
  returned. \<open>Inr True\<close>: the loop goes on; \<open>Inr False\<close>: \<^verbatim>\<open>SystemExit\<close> was caught and
  the loop is left; \<open>Inl e\<close>: the exception leaves \<^verbatim>\<open>main\<close>.
\<close>

definition loop_body :: "env \<Rightarrow> string \<Rightarrow> app_state \<Rightarrow> bool result" where
  "loop_body ev user w =
     (case run_command (command_table ev) user w of
        (Inl e, w1) \<Rightarrow> (if e = SystemExit then (Inr False, w1) else (Inl e, w1))
      | (Inr True, w1) \<Rightarrow> (Inr True, w1)
      | (Inr False, w1) \<Rightarrow>
          (let w2 = mem_append \<lparr>role = ''user'', content = user\<rparr> w1
           in case model_reply ev (active w2) of
                Inl e \<Rightarrow> (Inl e, w2)
              | Inr reply \<Rightarrow>
                  (let w3 = py_print (YELLOW @ reply @ RESET) w2
                   in (Inr True, mem_append \<lparr>role = ''assistant'', content = reply\<rparr> w3))))"

text \<open>
  \<^verbatim>\<open>state = AppState(client=..., session=..., history_dir=history_dir)\<close> in \<^verbatim>\<open>main\<close>:
  no bound name, a new empty list for \<^verbatim>\<open>mem\<close>, an empty catalog.
\<close>

definition init_state :: "directory \<Rightarrow> app_state" where
  "init_state d =
     \<lparr>history_dir = d, current_name = None, mem = 0, history = [], history_by_name = [],
      heap = (\<lambda>r. []), next_ref = 1, stdout = []\<rparr>"

section \<open>An example session\<close>

text \<open>
  A directory with one saved conversation \<open>x\<close>, a model that answers every request with
  the same title, and the state after the user's first message; the closed instances of
  the theorems below are evaluated on them.
\<close>

definition demo_dir :: directory where
  "demo_dir =
     [(''x.json'', JsonRecord \<lparr>name = ''x'', created = ''2024-01-01T00:00:00'',
         conversation = [\<lparr>role = ''user'', content = ''old''\<rparr>]\<rparr>)]"

definition demo_env :: env where
  "demo_env =
     \<lparr>client = (\<lambda>messages. Inr '' My Title ''),
      now_isoformat = ''2024-05-06T07:08:09'',
      now_strftime = ''2024-05-06_07-08-09''\<rparr>"

definition demo_state :: app_state where
  "demo_state = mem_append \<lparr>role = ''user'', content = ''hi''\<rparr> (init_state demo_dir)"

text \<open>The same surroundings with a model call that raises.\<close>

definition failing_env :: env where
  "failing_env =
     \<lparr>client = (\<lambda>messages. Inl (APIError ''Connection error.'')),
      now_isoformat = ''2024-05-06T07:08:09'',
      now_strftime = ''2024-05-06_07-08-09''\<rparr>"

text \<open>
  A directory whose only file is \<^verbatim>\<open>.json\<close>, a record that declares the empty name.
\<close>

definition blank_dir :: directory where
  "blank_dir =
     [(''.json'', JsonRecord \<lparr>name = [], created = ''2024-01-01T00:00:00'',
         conversation = [\<lparr>role = ''user'', content = ''old''\<rparr>]\<rparr>)]"

section \<open>The dispatch protocol as the specification words it\<close>

text \<open>
  What the dispatcher makes of a handler's outcome: a handler that returns is reported as
  handled, and an exception it raises goes on to the caller.
\<close>

definition handled :: "unit result \<Rightarrow> bool result" where
  "handled r = (case r of (Inl e, w1) \<Rightarrow> (Inl e, w1) | (Inr u, w1) \<Rightarrow> (Inr True, w1))"

text \<open>
  The algorithm of the specification, in its words: trim the line; an empty line is not a
  command; the head is the text before the first whitespace and the rest is what follows
  it, trimmed; the lower-cased head is looked up by exact match; an entry that takes an
  argument is invoked with the rest; one that takes none is invoked only when the rest is
  empty. \<open>Inr False\<close> is \<^verbatim>\<open>NotACommand\<close> and \<open>Inr True\<close> is \<^verbatim>\<open>Handled\<close>.
\<close>

definition parse_and_dispatch :: "command_entry list \<Rightarrow> string \<Rightarrow> app_state \<Rightarrow> bool result" where
  "parse_and_dispatch table raw_line w =
     (let line = str_strip raw_line
      in if line = [] then (Inr False, w)
         else
           (let head = takeWhile (\<lambda>c. \<not> isspace c) line;
                rest = str_strip (dropWhile (\<lambda>c. \<not> isspace c) line)
            in case find (\<lambda>c. command c = str_lower head) table of
                 None \<Rightarrow> (Inr False, w)
               | Some cmd \<Rightarrow>
                   if takes_arg cmd then handled (func cmd (Some rest) w)
                   else if rest \<noteq> [] then (Inr False, w)
                   else handled (func cmd None w)))"

text \<open>
  The three ways in which a line is not a command: it is empty after trimming, its head
  matches no entry, or it matches an entry without argument and has trailing text.
\<close>

definition not_a_command :: "command_entry list \<Rightarrow> string \<Rightarrow> bool" where
  "not_a_command table raw_line =
     (let line = str_strip raw_line
      in line = [] \<or>
         (case find (\<lambda>c. command c = str_lower (takeWhile (\<lambda>c. \<not> isspace c) line)) table of
            None \<Rightarrow> True
          | Some cmd \<Rightarrow> \<not> takes_arg cmd \<and> str_strip (dropWhile (\<lambda>c. \<not> isspace c) line) \<noteq> []))"

section \<open>The catalog and the directory\<close>

text \<open>
  The start of \<^verbatim>\<open>main\<close>: the new state, the two lines of greeting, and the first
  \<^verbatim>\<open>load_history\<close>.
\<close>

definition main_start :: "directory \<Rightarrow> app_state" where
  "main_start d =
     load_history
       (py_print (''Type '' @ [CHR 0x27] @ ''help'' @ [CHR 0x27] @ '' for a list of commands.'')
          (py_print ''trashAItool Enabled. CTRL+C to exit.'' (init_state d)))"

text \<open>
  The states of the program between two operations: the state \<^verbatim>\<open>main\<close> starts its loop
  with, and the state one pass through the loop body leaves, for any line read and any
  answer of the model and the clock. No other process changes the directory: it changes
  only by what the operations themselves do to it.
\<close>

inductive reachable :: "directory \<Rightarrow> app_state \<Rightarrow> bool" where
  start: "reachable d (main_start d)"
| step: "reachable d w \<Longrightarrow> reachable d (snd (loop_body ev line w))"

text \<open>
  The two sides of the correspondence: a name is a key of the catalog; a record file
  named after it exists.
\<close>

definition is_key :: "app_state \<Rightarrow> string \<Rightarrow> bool" where
  "is_key w n = (map_of (history_by_name w) n \<noteq> None)"

definition record_file_exists :: "directory \<Rightarrow> string \<Rightarrow> bool" where
  "record_file_exists d n =
     (case map_of d (json_path n) of Some (JsonRecord e) \<Rightarrow> True | _ \<Rightarrow> False)"

text \<open>
  Every record file that \<^verbatim>\<open>load_history\<close> reads declares the name of its own file: a
  file whose lower-cased name ends in \<^verbatim>\<open>.json\<close> and that holds a record is the file
  \<^verbatim>\<open>f"{name}.json"\<close> for the \<open>name\<close> of that record. Every file that
  \<^verbatim>\<open>save_conversation\<close> writes is of this kind.
\<close>

definition names_match :: "directory \<Rightarrow> bool" where
  "names_match d =
     list_all
       (\<lambda>(f, c). str_endswith (str_lower f) ''.json'' \<longrightarrow>
          (case c of JsonRecord e \<Rightarrow> f = json_path (name e) | Unreadable \<Rightarrow> True)) d"

definition consistent :: "app_state \<Rightarrow> bool" where
  "consistent w =
     (names_match (history_dir w) \<and>
      (\<forall>n. is_key w n = record_file_exists (history_dir w) n))"

text \<open>
  The file of the bound name exists: \<^verbatim>\<open>state.current_name\<close> is \<^verbatim>\<open>None\<close> or empty, or
  the file \<^verbatim>\<open>f"{state.current_name}.json"\<close> is in the directory.
\<close>

definition bound_file_exists :: "app_state \<Rightarrow> bool" where
  "bound_file_exists w =
     (case current_name w of
        None \<Rightarrow> True
      | Some n \<Rightarrow> n = [] \<or> os_path_exists (history_dir w) (json_path n))"

text \<open>A directory whose only file \<^verbatim>\<open>a.json\<close> holds a record that declares the name \<open>b\<close>.\<close>

definition mismatch_dir :: directory where
  "mismatch_dir =
     [(''a.json'', JsonRecord \<lparr>name = ''b'', created = ''2024-01-01T00:00:00'',
         conversation = [\<lparr>role = ''user'', content = ''old''\<rparr>]\<rparr>)]"

section \<open>Properties of the naming scheme\<close>

lemma unique_loop_least:
  "unique_loop d base i =
     (let k = (LEAST j. i \<le> j \<and> \<not> os_path_exists d (candidate_path base j))
      in (base @ ''-'' @ str_nat k, candidate_path base k))"
proof (induction d base i rule: unique_loop.induct)
  case (1 d base i)
  let ?P = "\<lambda>i j. i \<le> j \<and> \<not> os_path_exists d (candidate_path base j)"
  show ?case
  proof (cases "os_path_exists d (candidate_path base i)")
    case False
    then have "(LEAST j. ?P i j) = i"
      by (intro Least_equality) auto
    with False show ?thesis
      by (subst unique_loop.simps) (simp add: candidate_path_def Let_def)
  next
    case True
    have "\<And>j. ?P i j = ?P (i + 1) j"
      using True by (metis Suc_eq_plus1 Suc_leD Suc_leI le_neq_implies_less)
    then have eq: "(LEAST j. ?P i j) = (LEAST j. ?P (i + 1) j)" by simp
    have "unique_loop d base i = unique_loop d base (i + 1)"
      using True by (subst unique_loop.simps) (simp add: candidate_path_def Let_def)
    also have "\<dots> = (let k = (LEAST j. ?P (i + 1) j) in (base @ ''-'' @ str_nat k, candidate_path base k))"
      using 1 True by (simp add: candidate_path_def)
    finally show ?thesis using eq by simp
  qed
qed


lemma free_index_exists: "\<exists>j. i \<le> j \<and> \<not> os_path_exists d (candidate_path base j)"
proof (rule ccontr)
  assume "\<not> ?thesis"
  then have "taken_from d base i = {j. i \<le> j}"
    by (auto simp: taken_from_def)
  moreover have "infinite {j. i \<le> j}"
    by (metis (mono_tags, lifting) finite_nat_set_iff_bounded_le mem_Collect_eq nle_le not_less_eq_eq)
  ultimately show False
    using finite_taken_from[of d base i] by simp
qed

text \<open>
  Claim C4. For every directory (a finite list of files) and every name \<open>n\<close>,
  \<^const>\<open>unique_path\<close> is a total function (its loop terminates, by the termination
  proof above) and returns \<open>(n, path n)\<close> when no file for \<open>n\<close> exists; otherwise it
  returns \<open>(n-i, path (n-i))\<close> for the least \<open>i \<ge> 2\<close> such that no file for \<open>n-i\<close>
  exists: that file is free and every candidate from \<open>n-2\<close> up to it is taken.
\<close>

theorem unique_path_resolves:
  "(\<not> os_path_exists d (json_path n) \<longrightarrow> unique_path d n = (n, json_path n)) \<and>
   (os_path_exists d (json_path n) \<longrightarrow>
      (\<exists>i. 2 \<le> i \<and> unique_path d n = (n @ ''-'' @ str_nat i, json_path (n @ ''-'' @ str_nat i)) \<and>
           \<not> os_path_exists d (json_path (n @ ''-'' @ str_nat i)) \<and>
           (\<forall>j. 2 \<le> j \<and> j < i \<longrightarrow> os_path_exists d (json_path (n @ ''-'' @ str_nat j)))))"
proof (intro conjI impI)
  assume "\<not> os_path_exists d (json_path n)"
  then show "unique_path d n = (n, json_path n)"
    by (simp add: unique_path_def)
next
  assume ex: "os_path_exists d (json_path n)"
  let ?P = "\<lambda>j. 2 \<le> j \<and> \<not> os_path_exists d (candidate_path n j)"
  define k where "k = (LEAST j. ?P j)"
  have "\<exists>j. ?P j" by (rule free_index_exists)
  then have Pk: "?P k" unfolding k_def by (rule LeastI_ex)
  have least: "\<And>j. ?P j \<Longrightarrow> k \<le> j" unfolding k_def by (rule Least_le)
  have res: "unique_path d n = (n @ ''-'' @ str_nat k, candidate_path n k)"
    using ex by (simp add: unique_path_def unique_loop_least k_def Let_def)
  have below: "\<forall>j. 2 \<le> j \<and> j < k \<longrightarrow> os_path_exists d (json_path (n @ ''-'' @ str_nat j))"
    using least by (fastforce simp: candidate_path_def)
  show "\<exists>i. 2 \<le> i \<and> unique_path d n = (n @ ''-'' @ str_nat i, json_path (n @ ''-'' @ str_nat i)) \<and>
           \<not> os_path_exists d (json_path (n @ ''-'' @ str_nat i)) \<and>
           (\<forall>j. 2 \<le> j \<and> j < i \<longrightarrow> os_path_exists d (json_path (n @ ''-'' @ str_nat j)))"
    using Pk res below by (intro exI[of _ k]) (simp add: candidate_path_def)
qed

lemma str_nat_2: "str_nat 2 = ''2''" by code_simp
lemma str_nat_3: "str_nat 3 = ''3''" by code_simp

theorem unique_path_resolves_witness:
  "os_path_exists [(''x.json'', Unreadable), (''x-2.json'', Unreadable), (''x-4.json'', Unreadable)] (json_path ''x'') \<and>
   unique_path [(''x.json'', Unreadable), (''x-2.json'', Unreadable), (''x-4.json'', Unreadable)] ''x'' = (''x-3'', ''x-3.json'') \<and>
   unique_path [(''x.json'', Unreadable), (''x-2.json'', Unreadable), (''x-4.json'', Unreadable)] ''y'' = (''y'', ''y.json'')"
proof -
  let ?d = "[(''x.json'', Unreadable), (''x-2.json'', Unreadable), (''x-4.json'', Unreadable)]"
  have ex: "os_path_exists ?d (json_path ''x'')"
    by (simp add: os_path_exists_def json_path_def)
  have nex: "\<not> os_path_exists ?d (json_path ''y'')"
    by (simp add: os_path_exists_def json_path_def)
  from ex unique_path_resolves[of ?d "''x''"] obtain i where
    i: "2 \<le> i" "unique_path ?d ''x'' = (''x'' @ ''-'' @ str_nat i, json_path (''x'' @ ''-'' @ str_nat i))"
       "\<not> os_path_exists ?d (json_path (''x'' @ ''-'' @ str_nat i))"
       "\<forall>j. 2 \<le> j \<and> j < i \<longrightarrow> os_path_exists ?d (json_path (''x'' @ ''-'' @ str_nat j))"
    by blast
  have "\<not> os_path_exists ?d (json_path (''x'' @ ''-'' @ str_nat 3))"
    by (simp add: str_nat_3 os_path_exists_def json_path_def)
  with i(4) have "\<not> (2 \<le> (3::nat) \<and> 3 < i)" by blast
  then have "i \<le> 3" by simp
  moreover have "i \<noteq> 2"
    using i(3) by (auto simp: str_nat_2 os_path_exists_def json_path_def)
  ultimately have "i = 3" using i(1) by simp
  with i(2) have "unique_path ?d ''x'' = (''x-3'', ''x-3.json'')"
    by (simp add: str_nat_3 json_path_def)
  moreover from nex unique_path_resolves[of ?d "''y''"] have "unique_path ?d ''y'' = (''y'', ''y.json'')"
    by (simp add: json_path_def)
  ultimately show ?thesis using ex by simp
qed


lemma of_char_less_256: "(of_char c :: nat) < 256"
  by (metis of_char_mod_256 mod_less_divisor zero_less_numeral)

lemma lower_upper_char: "lower_char (upper_char c) = lower_char c"
  using of_char_less_256[of c]
  by (auto simp: lower_char_def upper_char_def Let_def)

lemma upper_lower_char: "upper_char (lower_char c) = upper_char c"
  using of_char_less_256[of c]
  by (auto simp: lower_char_def upper_char_def Let_def)

lemma str_lower_upper: "str_lower (str_upper s) = str_lower s"
  by (simp add: str_lower_def str_upper_def lower_upper_char)

lemma str_upper_lower: "str_upper (str_lower s) = str_upper s"
  by (simp add: str_lower_def str_upper_def upper_lower_char)

lemma reserved_upper: "r \<in> set WINDOWS_RESERVED \<Longrightarrow> str_upper r = r"
  by (auto simp: WINDOWS_RESERVED_def str_upper_def upper_char_def)

lemma upper_in_reserved_iff: "str_upper s \<in> set WINDOWS_RESERVED \<longleftrightarrow> matches_reserved s"
proof
  assume "str_upper s \<in> set WINDOWS_RESERVED"
  moreover have "str_lower s = str_lower (str_upper s)" by (simp add: str_lower_upper)
  ultimately show "matches_reserved s"
    unfolding matches_reserved_def list_ex_iff equals_ignoring_case_def by blast
next
  assume "matches_reserved s"
  then obtain r where r: "r \<in> set WINDOWS_RESERVED" "str_lower s = str_lower r"
    unfolding matches_reserved_def list_ex_iff equals_ignoring_case_def by blast
  have "str_upper s = str_upper (str_lower s)" by (simp add: str_upper_lower)
  also have "\<dots> = str_upper r" using r(2) by (simp add: str_upper_lower)
  also have "\<dots> = r" using r(1) by (rule reserved_upper)
  finally show "str_upper s \<in> set WINDOWS_RESERVED" using r(1) by simp
qed

lemma foldl_str_remove: "foldl (\<lambda>s ch. str_remove ch s) s cs = filter (\<lambda>c. c \<notin> set cs) s"
proof (induction cs arbitrary: s)
  case Nil
  show ?case by simp
next
  case (Cons a cs)
  show ?case by (simp add: Cons.IH) (simp add: str_remove_def conj_commute)
qed

lemma set_str_strip: "set (str_strip s) \<subseteq> set s"
  unfolding str_strip_def
  by (metis set_dropWhileD set_rev subsetI)

lemma trimmed_str_strip: "trimmed (str_strip s)"
proof -
  define t where "t = dropWhile isspace s"
  define v where "v = dropWhile isspace (rev t)"
  have strip: "str_strip s = rev v" by (simp add: str_strip_def t_def v_def)
  show ?thesis
  proof (cases "v = []")
    case True
    then show ?thesis by (simp add: strip trimmed_def)
  next
    case False
    then have hdv: "\<not> isspace (hd v)" unfolding v_def by (rule hd_dropWhile)
    from False have tne: "t \<noteq> []" unfolding v_def by auto
    then have hdt: "\<not> isspace (hd t)" unfolding t_def by (rule hd_dropWhile)
    obtain u where u: "rev t = u @ v"
      unfolding v_def by (metis takeWhile_dropWhile_id)
    then have "last v = last (rev t)" using False by simp
    also have "\<dots> = hd t" using tne by (simp add: last_rev)
    finally have "\<not> isspace (last v)" using hdt by simp
    then show ?thesis using False hdv by (simp add: strip trimmed_def hd_rev last_rev)
  qed
qed

lemma str_strip_trimmed: "trimmed s \<Longrightarrow> str_strip s = s"
proof (cases "s = []")
  case True
  then show ?thesis by (simp add: str_strip_def)
next
  case False
  assume "trimmed s"
  with False have h: "\<not> isspace (hd s)" and l: "\<not> isspace (last s)" by (auto simp: trimmed_def)
  from False h have 1: "dropWhile isspace s = s" by (cases s) auto
  from False l have 2: "dropWhile isspace (rev s) = rev s" by (cases "rev s") (auto simp: last_rev[symmetric] hd_rev)
  show ?thesis by (simp add: str_strip_def 1 2)
qed

lemma upper_char_underscore: "upper_char (CHR ''_'') = CHR ''_''"
  by (simp add: upper_char_def)

lemma underscore_not_reserved: "str_upper (CHR ''_'' # s) \<notin> set WINDOWS_RESERVED"
  by (simp add: str_upper_def upper_char_underscore WINDOWS_RESERVED_def)

lemma sanitize_filename_eq:
  "sanitize_filename x =
     (let r = str_strip (filter (\<lambda>c. c \<notin> set INVALID_FILENAME_CHARS) x)
      in if matches_reserved r then CHR ''_'' # r else r)"
  by (simp add: sanitize_filename_def foldl_str_remove upper_in_reserved_iff Let_def)

lemma sanitize_filename_no_invalid:
  "set (sanitize_filename x) \<inter> set INVALID_FILENAME_CHARS = {}"
proof -
  let ?r = "str_strip (filter (\<lambda>c. c \<notin> set INVALID_FILENAME_CHARS) x)"
  have "set ?r \<inter> set INVALID_FILENAME_CHARS = {}"
    using set_str_strip[of "filter (\<lambda>c. c \<notin> set INVALID_FILENAME_CHARS) x"] by auto
  moreover have "CHR ''_'' \<notin> set INVALID_FILENAME_CHARS"
    by (simp add: INVALID_FILENAME_CHARS_def)
  ultimately show ?thesis
    by (auto simp: sanitize_filename_eq Let_def)
qed

lemma sanitize_filename_trimmed: "trimmed (sanitize_filename x)"
proof -
  let ?r = "str_strip (filter (\<lambda>c. c \<notin> set INVALID_FILENAME_CHARS) x)"
  have t: "trimmed ?r" by (rule trimmed_str_strip)
  have "\<not> isspace (CHR ''_'')" by (simp add: isspace_def)
  moreover have "matches_reserved ?r \<Longrightarrow> ?r \<noteq> []"
    by (auto simp: matches_reserved_def list_ex_iff equals_ignoring_case_def str_lower_def WINDOWS_RESERVED_def)
  ultimately show ?thesis using t
    by (auto simp: sanitize_filename_eq Let_def trimmed_def)
qed

lemma sanitize_filename_idem: "sanitize_filename (sanitize_filename x) = sanitize_filename x"
proof -
  let ?y = "sanitize_filename x"
  have "filter (\<lambda>c. c \<notin> set INVALID_FILENAME_CHARS) ?y = ?y"
    using sanitize_filename_no_invalid[of x] by (auto simp: filter_id_conv)
  moreover have "str_strip ?y = ?y"
    by (rule str_strip_trimmed) (rule sanitize_filename_trimmed)
  moreover have "\<not> matches_reserved ?y"
    by (auto simp: sanitize_filename_def[of x] Let_def underscore_not_reserved upper_in_reserved_iff[symmetric])
  ultimately show ?thesis
    by (simp add: sanitize_filename_eq[of ?y] Let_def)
qed

lemma sanitize_CON: "sanitize_filename ''CON'' = ''_CON''"
  by code_simp

lemma sanitize_con: "sanitize_filename ''con'' = ''_con''"
  by code_simp

text \<open>
  Claim C5. \<^const>\<open>sanitize_filename\<close> removes every character of the illegal set
  \<^verbatim>\<open>< > : " / \ | ? *\<close> (none is left in the result), trims the surrounding whitespace, and
  puts an underscore before the result exactly when it equals a reserved device name with
  case ignored; so \<open>CON\<close> becomes \<open>_CON\<close> and \<open>con\<close> becomes \<open>_con\<close>. It is idempotent.
\<close>

theorem sanitize_filename_contract:
  "set (sanitize_filename x) \<inter> set INVALID_FILENAME_CHARS = {} \<and>
   sanitize_filename x =
     (let r = str_strip (filter (\<lambda>c. c \<notin> set INVALID_FILENAME_CHARS) x)
      in if matches_reserved r then CHR ''_'' # r else r) \<and>
   trimmed (str_strip (filter (\<lambda>c. c \<notin> set INVALID_FILENAME_CHARS) x)) \<and>
   trimmed (sanitize_filename x) \<and>
   sanitize_filename ''CON'' = ''_CON'' \<and>
   sanitize_filename ''con'' = ''_con'' \<and>
   sanitize_filename (sanitize_filename x) = sanitize_filename x"
  using sanitize_filename_no_invalid[of x] sanitize_filename_eq[of x] trimmed_str_strip
    sanitize_filename_trimmed[of x] sanitize_CON sanitize_con sanitize_filename_idem[of x]
  by blast

theorem sanitize_filename_contract_witness:
  "sanitize_filename '' <nul>* '' = ''_nul'' \<and>
   sanitize_filename ''_nul'' = ''_nul'' \<and>
   CHR ''<'' \<notin> set (sanitize_filename '' <nul>* '') \<and>
   sanitize_filename [CHR 0xA0, CHR ''C'', CHR ''O'', CHR ''N'', CHR 0x85] = ''_CON''"
proof -
  have v: "sanitize_filename '' <nul>* '' = ''_nul''" by code_simp
  have n: "sanitize_filename [CHR 0xA0, CHR ''C'', CHR ''O'', CHR ''N'', CHR 0x85] = ''_CON''"
    by code_simp
  from sanitize_filename_contract[of "'' <nul>* ''"]
  have "sanitize_filename (sanitize_filename '' <nul>* '') = sanitize_filename '' <nul>* ''"
    and "set (sanitize_filename '' <nul>* '') \<inter> set INVALID_FILENAME_CHARS = {}"
    by blast+
  then show ?thesis using v n by (simp add: INVALID_FILENAME_CHARS_def)
qed

section \<open>Save and load\<close>

lemma unique_path_fresh_conj:
  assumes "unique_path d n = (fn, p)"
  shows "p = json_path fn \<and> \<not> os_path_exists d p"
proof (cases "os_path_exists d (json_path n)")
  case False
  with assms show ?thesis by (auto simp: unique_path_def)
next
  case True
  let ?P = "\<lambda>j. 2 \<le> j \<and> \<not> os_path_exists d (candidate_path n j)"
  have "\<exists>j. ?P j" by (rule free_index_exists)
  then have "?P (LEAST j. ?P j)" by (rule LeastI_ex)
  with True assms show ?thesis
    by (auto simp: unique_path_def unique_loop_least Let_def candidate_path_def)
qed

lemma unique_path_fresh:
  assumes "unique_path d n = (fn, p)"
  shows "p = json_path fn" and "\<not> os_path_exists d p"
  using unique_path_fresh_conj[OF assms] by blast+

lemma update_absent: "map_of d k = None \<Longrightarrow> AList.update k v d = d @ [(k, v)]"
  by (induction d) (auto split: if_splits)

lemma save_conversation_empty: "active w = [] \<Longrightarrow> save_conversation ev w n = w"
  by (simp add: save_conversation_def)

lemma save_conversation_nonempty:
  assumes "active w \<noteq> []" and up: "unique_path (history_dir w) n = (fn, p)"
  shows "save_conversation ev w n =
           w\<lparr>heap := (heap w)(next_ref w := active w),
             next_ref := Suc (next_ref w),
             history_dir := history_dir w @
                [(p, JsonRecord \<lparr>name = fn, created = now_isoformat ev, conversation = active w\<rparr>)],
             history := history w @ [\<lparr>name = fn, created = now_isoformat ev, conversation = next_ref w\<rparr>],
             history_by_name := AList.update fn
                \<lparr>name = fn, created = now_isoformat ev, conversation = next_ref w\<rparr> (history_by_name w),
             current_name := Some fn\<rparr>"
proof -
  from unique_path_fresh(2)[OF up] have "map_of (history_dir w) p = None"
    by (auto simp: os_path_exists_def)
  then have "write_file (history_dir w) p f = history_dir w @ [(p, f)]" for f
    by (simp add: write_file_def update_absent)
  with assms show ?thesis
    by (simp add: save_conversation_def new_list_def json_dump_def Let_def)
qed


text \<open>
  Claim C6. With an empty active conversation \<^const>\<open>save_conversation\<close> returns the state
  as it is: no file is written, and the catalog, its order and the bound name are
  unchanged. With a non-empty one it resolves a unique name from the desired name, writes
  a new file (the path did not exist, every other file is untouched) whose record has the
  final name, the current time as \<open>created\<close> and the messages of the active conversation,
  appends the entry to the catalog order, inserts it into the catalog under the final
  name and binds that name. The entry's conversation is a new list object equal to the
  active conversation, which itself is unchanged; when the active list is an allocated
  object, appending to it afterwards does not change the entry.
\<close>

theorem save_conversation_contract:
  "(active w = [] \<longrightarrow> save_conversation ev w n = w) \<and>
   (active w \<noteq> [] \<longrightarrow>
      (\<exists>final_name path entry.
         unique_path (history_dir w) n = (final_name, path) \<and>
         path = json_path final_name \<and>
         \<not> os_path_exists (history_dir w) path \<and>
         entry = \<lparr>name = final_name, created = now_isoformat ev, conversation = next_ref w\<rparr> \<and>
         heap (save_conversation ev w n) (conversation entry) = active w \<and>
         history_dir (save_conversation ev w n) =
           history_dir w @
             [(path, JsonRecord \<lparr>name = final_name, created = now_isoformat ev, conversation = active w\<rparr>)] \<and>
         history (save_conversation ev w n) = history w @ [entry] \<and>
         history_by_name (save_conversation ev w n) = AList.update final_name entry (history_by_name w) \<and>
         map_of (history_by_name (save_conversation ev w n)) final_name = Some entry \<and>
         current_name (save_conversation ev w n) = Some final_name \<and>
         mem (save_conversation ev w n) = mem w \<and>
         active (save_conversation ev w n) = active w \<and>
         stdout (save_conversation ev w n) = stdout w \<and>
         (mem w < next_ref w \<longrightarrow>
            (\<forall>m. heap (mem_append m (save_conversation ev w n)) (conversation entry) = active w))))"
proof (intro conjI impI)
  assume "active w = []"
  then show "save_conversation ev w n = w" by (rule save_conversation_empty)
next
  assume ne: "active w \<noteq> []"
  obtain fn p where up: "unique_path (history_dir w) n = (fn, p)"
    by (cases "unique_path (history_dir w) n")
  note fresh = unique_path_fresh[OF up]
  note eq = save_conversation_nonempty[OF ne up, of ev]
  show "\<exists>final_name path entry.
         unique_path (history_dir w) n = (final_name, path) \<and>
         path = json_path final_name \<and>
         \<not> os_path_exists (history_dir w) path \<and>
         entry = \<lparr>name = final_name, created = now_isoformat ev, conversation = next_ref w\<rparr> \<and>
         heap (save_conversation ev w n) (conversation entry) = active w \<and>
         history_dir (save_conversation ev w n) =
           history_dir w @
             [(path, JsonRecord \<lparr>name = final_name, created = now_isoformat ev, conversation = active w\<rparr>)] \<and>
         history (save_conversation ev w n) = history w @ [entry] \<and>
         history_by_name (save_conversation ev w n) = AList.update final_name entry (history_by_name w) \<and>
         map_of (history_by_name (save_conversation ev w n)) final_name = Some entry \<and>
         current_name (save_conversation ev w n) = Some final_name \<and>
         mem (save_conversation ev w n) = mem w \<and>
         active (save_conversation ev w n) = active w \<and>
         stdout (save_conversation ev w n) = stdout w \<and>
         (mem w < next_ref w \<longrightarrow>
            (\<forall>m. heap (mem_append m (save_conversation ev w n)) (conversation entry) = active w))"
    apply (insert up fresh)
    apply (rule exI[of _ fn])
    apply (rule exI[of _ p])
    apply (rule exI[of _ "\<lparr>name = fn, created = now_isoformat ev, conversation = next_ref w\<rparr>"])
    apply (simp add: eq active_def mem_append_def update_conv')
    done
qed

lemma demo_active: "active demo_state = [\<lparr>role = ''user'', content = ''hi''\<rparr>]"
  by (simp add: demo_state_def init_state_def mem_append_def active_def)

lemma demo_history_dir: "history_dir demo_state = demo_dir"
  by (simp add: demo_state_def init_state_def mem_append_def)

lemma demo_unique: "unique_path (history_dir demo_state) ''x'' = (''x-2'', ''x-2.json'')"
  by code_simp

theorem save_conversation_contract_witness:
  "active demo_state \<noteq> [] \<and>
   current_name (save_conversation demo_env demo_state ''x'') = Some ''x-2'' \<and>
   map_of (history_dir (save_conversation demo_env demo_state ''x'')) ''x-2.json'' =
     Some (JsonRecord \<lparr>name = ''x-2'', created = ''2024-05-06T07:08:09'',
             conversation = [\<lparr>role = ''user'', content = ''hi''\<rparr>]\<rparr>) \<and>
   save_conversation demo_env (init_state demo_dir) ''x'' = init_state demo_dir"
proof -
  have ne: "active demo_state \<noteq> []" by (simp add: demo_active)
  have e: "active (init_state demo_dir) = []" by (simp add: init_state_def active_def)
  from ne save_conversation_contract[of demo_state demo_env "''x''"] demo_unique
  have "current_name (save_conversation demo_env demo_state ''x'') = Some ''x-2''"
    and "history_dir (save_conversation demo_env demo_state ''x'') =
           history_dir demo_state @
             [(''x-2.json'', JsonRecord \<lparr>name = ''x-2'', created = now_isoformat demo_env,
                 conversation = active demo_state\<rparr>)]"
    by auto
  moreover from e save_conversation_contract[of "init_state demo_dir" demo_env "''x''"]
  have "save_conversation demo_env (init_state demo_dir) ''x'' = init_state demo_dir" by blast
  ultimately show ?thesis using ne
    by (simp add: demo_active demo_env_def demo_history_dir demo_dir_def)
qed

lemma load_conversation_hit:
  assumes "map_of (history_by_name w) nm = Some e"
  shows "load_conversation w nm =
           w\<lparr>heap := (heap w)(next_ref w := heap w (conversation e)),
             next_ref := Suc (next_ref w),
             mem := next_ref w,
             current_name := Some nm,
             stdout := stdout w @ [''Loaded conversation: '' @ nm]\<rparr>"
  using assms by (simp add: load_conversation_def new_list_def py_print_def)

lemma load_conversation_miss:
  assumes "map_of (history_by_name w) nm = None"
  shows "load_conversation w nm = py_print ''No conversation found with that name.'' w"
  using assms by (simp add: load_conversation_def)

text \<open>
  Claim C7. Saving a non-empty active conversation stores, under the resolved final name,
  an entry whose list holds the messages of the active conversation. Loading a name copies
  the messages of the entry the catalog holds under it, whatever the active conversation
  was before: in every state where the catalog has an entry under a name, loading that
  name makes the active conversation a new list object with the entry's messages and
  binds the name. So loading the final name after the save, directly or after the active
  conversation has been emptied by \<open>new\<close>, gives a sequence equal to the one saved (the
  same messages in the same order) and binds that name. The loaded list is not the
  list of the catalog entry, so appending to the active conversation, or clearing it,
  leaves the stored record (the entry, the catalog and the file) as it was.
\<close>

theorem save_then_load_roundtrip:
  assumes "active w \<noteq> []" and "unique_path (history_dir w) n = (final_name, path)"
  shows
    "(let w1 = save_conversation ev w n;
          w2 = load_conversation w1 final_name;
          entry = \<lparr>name = final_name, created = now_isoformat ev, conversation = next_ref w\<rparr>
      in current_name w1 = Some final_name \<and>
         map_of (history_by_name w1) final_name = Some entry \<and>
         heap w1 (conversation entry) = active w \<and>
         active w2 = active w \<and>
         current_name w2 = Some final_name \<and>
         stdout w2 = stdout w @ [''Loaded conversation: '' @ final_name] \<and>
         history w2 = history w1 \<and>
         history_by_name w2 = history_by_name w1 \<and>
         history_dir w2 = history_dir w1 \<and>
         mem w2 \<noteq> conversation entry \<and>
         heap w2 (conversation entry) = active w \<and>
         heap (mem_clear w2) (conversation entry) = active w \<and>
         (\<forall>m. active (mem_append m w2) = active w @ [m] \<and>
              heap (mem_append m w2) (conversation entry) = active w \<and>
              history_by_name (mem_append m w2) = history_by_name w1 \<and>
              history_dir (mem_append m w2) = history_dir w1) \<and>
         (mem w < next_ref w \<longrightarrow>
            active (cmd_new w1) = [] \<and>
            current_name (cmd_new w1) = None \<and>
            active (load_conversation (cmd_new w1) final_name) = active w \<and>
            current_name (load_conversation (cmd_new w1) final_name) = Some final_name)) \<and>
     (\<forall>w' nm e. map_of (history_by_name w') nm = Some e \<longrightarrow>
        active (load_conversation w' nm) = heap w' (conversation e) \<and>
        current_name (load_conversation w' nm) = Some nm \<and>
        mem (load_conversation w' nm) = next_ref w' \<and>
        (\<forall>r. r \<noteq> next_ref w' \<longrightarrow> heap (load_conversation w' nm) r = heap w' r) \<and>
        history (load_conversation w' nm) = history w' \<and>
        history_by_name (load_conversation w' nm) = history_by_name w' \<and>
        history_dir (load_conversation w' nm) = history_dir w')"
proof (rule conjI)
  show "let w1 = save_conversation ev w n;
          w2 = load_conversation w1 final_name;
          entry = \<lparr>name = final_name, created = now_isoformat ev, conversation = next_ref w\<rparr>
      in current_name w1 = Some final_name \<and>
         map_of (history_by_name w1) final_name = Some entry \<and>
         heap w1 (conversation entry) = active w \<and>
         active w2 = active w \<and>
         current_name w2 = Some final_name \<and>
         stdout w2 = stdout w @ [''Loaded conversation: '' @ final_name] \<and>
         history w2 = history w1 \<and>
         history_by_name w2 = history_by_name w1 \<and>
         history_dir w2 = history_dir w1 \<and>
         mem w2 \<noteq> conversation entry \<and>
         heap w2 (conversation entry) = active w \<and>
         heap (mem_clear w2) (conversation entry) = active w \<and>
         (\<forall>m. active (mem_append m w2) = active w @ [m] \<and>
              heap (mem_append m w2) (conversation entry) = active w \<and>
              history_by_name (mem_append m w2) = history_by_name w1 \<and>
              history_dir (mem_append m w2) = history_dir w1) \<and>
         (mem w < next_ref w \<longrightarrow>
            active (cmd_new w1) = [] \<and>
            current_name (cmd_new w1) = None \<and>
            active (load_conversation (cmd_new w1) final_name) = active w \<and>
            current_name (load_conversation (cmd_new w1) final_name) = Some final_name)"
    by (simp add: save_conversation_nonempty[OF assms] load_conversation_def new_list_def
          py_print_def active_def mem_append_def mem_clear_def cmd_new_def update_conv' Let_def)
next
  show "\<forall>w' nm e. map_of (history_by_name w') nm = Some e \<longrightarrow>
        active (load_conversation w' nm) = heap w' (conversation e) \<and>
        current_name (load_conversation w' nm) = Some nm \<and>
        mem (load_conversation w' nm) = next_ref w' \<and>
        (\<forall>r. r \<noteq> next_ref w' \<longrightarrow> heap (load_conversation w' nm) r = heap w' r) \<and>
        history (load_conversation w' nm) = history w' \<and>
        history_by_name (load_conversation w' nm) = history_by_name w' \<and>
        history_dir (load_conversation w' nm) = history_dir w'"
    by (simp add: load_conversation_hit active_def)
qed

theorem save_then_load_roundtrip_witness:
  "active demo_state \<noteq> [] \<and>
   unique_path (history_dir demo_state) ''x'' = (''x-2'', ''x-2.json'') \<and>
   mem demo_state < next_ref demo_state \<and>
   active (load_conversation (save_conversation demo_env demo_state ''x'') ''x-2'') =
     [\<lparr>role = ''user'', content = ''hi''\<rparr>] \<and>
   current_name (load_conversation (save_conversation demo_env demo_state ''x'') ''x-2'') = Some ''x-2'' \<and>
   active (cmd_new (save_conversation demo_env demo_state ''x'')) = [] \<and>
   active (load_conversation (cmd_new (save_conversation demo_env demo_state ''x'')) ''x-2'') =
     [\<lparr>role = ''user'', content = ''hi''\<rparr>] \<and>
   current_name (load_conversation (cmd_new (save_conversation demo_env demo_state ''x'')) ''x-2'') =
     Some ''x-2'' \<and>
   map_of (history_by_name (cmd_new (save_conversation demo_env demo_state ''x''))) ''x-2'' =
     Some \<lparr>name = ''x-2'', created = ''2024-05-06T07:08:09'', conversation = 1\<rparr> \<and>
   mem (load_conversation (cmd_new (save_conversation demo_env demo_state ''x'')) ''x-2'') = 2"
proof -
  have ne: "active demo_state \<noteq> []" by (simp add: demo_active)
  have nr: "next_ref demo_state = 1"
    by (simp add: demo_state_def init_state_def mem_append_def)
  have c: "map_of (history_by_name (cmd_new (save_conversation demo_env demo_state ''x''))) ''x-2'' =
     Some \<lparr>name = ''x-2'', created = ''2024-05-06T07:08:09'', conversation = 1\<rparr>"
    by (simp add: save_conversation_nonempty[OF ne demo_unique] cmd_new_def py_print_def
          mem_clear_def update_conv' nr demo_env_def)
  have n2: "next_ref (cmd_new (save_conversation demo_env demo_state ''x'')) = 2"
    by (simp add: save_conversation_nonempty[OF ne demo_unique] cmd_new_def py_print_def
          mem_clear_def nr)
  from save_then_load_roundtrip[OF ne demo_unique, of demo_env, THEN conjunct2] c
  have "mem (load_conversation (cmd_new (save_conversation demo_env demo_state ''x'')) ''x-2'') =
          next_ref (cmd_new (save_conversation demo_env demo_state ''x''))"
    by blast
  then have 6: "mem (load_conversation (cmd_new (save_conversation demo_env demo_state ''x'')) ''x-2'') = 2"
    by (simp add: n2)
  have al: "mem demo_state < next_ref demo_state"
    by (simp add: demo_state_def init_state_def mem_append_def)
  note r = save_then_load_roundtrip[OF ne demo_unique, of demo_env, THEN conjunct1]
  have 1: "active (load_conversation (save_conversation demo_env demo_state ''x'') ''x-2'') = active demo_state"
    and 2: "current_name (load_conversation (save_conversation demo_env demo_state ''x'') ''x-2'') = Some ''x-2''"
    using r by (simp_all add: Let_def)
  have 3: "active (cmd_new (save_conversation demo_env demo_state ''x'')) = []"
    and 4: "active (load_conversation (cmd_new (save_conversation demo_env demo_state ''x'')) ''x-2'') =
         active demo_state"
    and 5: "current_name (load_conversation (cmd_new (save_conversation demo_env demo_state ''x'')) ''x-2'') =
         Some ''x-2''"
    using r al by (simp_all add: Let_def)
  show ?thesis using ne demo_unique al 1 2 3 4 5 c 6 by (simp add: demo_active)
qed

section \<open>Compress and a failing model call\<close>

text \<open>
  Claim C2 says that a model call that raises during compress leaves the active
  conversation as it was. \<^const>\<open>cmd_compress\<close> appends the instruction message to
  \<^verbatim>\<open>state.mem\<close> in place before it calls the model, so when the call raises the
  exception leaves the function with the instruction appended: the earlier messages are
  kept, in order, but the conversation is one message longer than before and so is not
  equal to it. (\<^const>\<open>generate_title_from_mem\<close> builds a temporary list for the same
  purpose and leaves the conversation alone.)
\<close>

theorem cmd_compress_failure_keeps_instruction:
  assumes "active w \<noteq> []"
    and "client ev (active w @ [\<lparr>role = ''user'', content = COMPRESS_PROMPT\<rparr>]) = Inl e"
  shows "cmd_compress ev w = (Inl e, mem_append \<lparr>role = ''user'', content = COMPRESS_PROMPT\<rparr> w) \<and>
         active (snd (cmd_compress ev w)) = active w @ [\<lparr>role = ''user'', content = COMPRESS_PROMPT\<rparr>] \<and>
         active (snd (cmd_compress ev w)) \<noteq> active w"
  using assms
  by (simp add: cmd_compress_def model_reply_def active_def mem_append_def Let_def)

theorem cmd_compress_failure_witness:
  "active demo_state = [\<lparr>role = ''user'', content = ''hi''\<rparr>] \<and>
   fst (cmd_compress failing_env demo_state) = Inl (APIError ''Connection error.'') \<and>
   active (snd (cmd_compress failing_env demo_state)) =
     [\<lparr>role = ''user'', content = ''hi''\<rparr>, \<lparr>role = ''user'', content = COMPRESS_PROMPT\<rparr>]"
proof -
  have ne: "active demo_state \<noteq> []" by (simp add: demo_active)
  have c: "client failing_env (active demo_state @ [\<lparr>role = ''user'', content = COMPRESS_PROMPT\<rparr>])
             = Inl (APIError ''Connection error.'')"
    by (simp add: failing_env_def)
  note r = cmd_compress_failure_keeps_instruction[OF ne c]
  have a: "fst (cmd_compress failing_env demo_state) = Inl (APIError ''Connection error.'')"
    using r[THEN conjunct1] by simp
  have b: "active (snd (cmd_compress failing_env demo_state)) =
           active demo_state @ [\<lparr>role = ''user'', content = COMPRESS_PROMPT\<rparr>]"
    using r[THEN conjunct2, THEN conjunct1] .
  show ?thesis by (simp add: a b demo_active)
qed

section \<open>Dispatch\<close>

lemma str_strip_dropWhile: "str_strip (dropWhile isspace s) = str_strip s"
  by (simp add: str_strip_def)

lemma str_strip_all_space:
  assumes "dropWhile isspace s = []"
  shows "str_strip s = []"
  unfolding str_strip_def assms by simp

lemma str_split1_trimmed:
  assumes "trimmed t" and "t \<noteq> []"
  shows "str_split1 t =
           (if dropWhile isspace (dropWhile (\<lambda>c. \<not> isspace c) t) = []
            then [takeWhile (\<lambda>c. \<not> isspace c) t]
            else [takeWhile (\<lambda>c. \<not> isspace c) t,
                  dropWhile isspace (dropWhile (\<lambda>c. \<not> isspace c) t)])"
proof -
  from assms have "\<not> isspace (hd t)" by (simp add: trimmed_def)
  with assms(2) have "dropWhile isspace t = t" by (cases t) auto
  with assms(2) show ?thesis by (simp add: str_split1_def Let_def)
qed

lemma handled_cases:
  "(case r of (Inl e, w1) \<Rightarrow> (Inl e, w1) | (Inr u, w1) \<Rightarrow> (Inr True, w1)) = handled r"
  by (simp add: handled_def)

lemma run_command_eq: "run_command table raw_line w = parse_and_dispatch table raw_line w"
proof (cases "str_strip raw_line = []")
  case True
  then show ?thesis by (simp add: run_command_def parse_and_dispatch_def)
next
  case False
  let ?t = "str_strip raw_line"
  let ?h = "takeWhile (\<lambda>c. \<not> isspace c) ?t"
  let ?r = "dropWhile isspace (dropWhile (\<lambda>c. \<not> isspace c) ?t)"
  have sp: "str_split1 ?t = (if ?r = [] then [?h] else [?h, ?r])"
    using False by (intro str_split1_trimmed trimmed_str_strip)
  have st: "str_strip ?r = str_strip (dropWhile (\<lambda>c. \<not> isspace c) ?t)"
    by (rule str_strip_dropWhile)
  show ?thesis
  proof (cases "?r = []")
    case True
    then have e: "str_strip (dropWhile (\<lambda>c. \<not> isspace c) ?t) = []"
      by (rule str_strip_all_space)
    have sp1: "str_split1 ?t = [?h]" by (subst sp) (rule if_P[OF True])
    show ?thesis
      unfolding run_command_def parse_and_dispatch_def Let_def handled_cases
      by (simp add: False sp1 e split: option.split)
  next
    case r: False
    have sp2: "str_split1 ?t = [?h, ?r]" by (subst sp) (rule if_not_P[OF r])
    show ?thesis
      unfolding run_command_def parse_and_dispatch_def Let_def handled_cases
      by (simp add: False sp2 st split: option.split)
  qed
qed


lemma parse_and_dispatch_parsed:
  assumes "str_strip raw_line = t" and "t \<noteq> []"
    and "str_lower (takeWhile (\<lambda>c. \<not> isspace c) t) = h"
    and "str_strip (dropWhile (\<lambda>c. \<not> isspace c) t) = r"
  shows "parse_and_dispatch table raw_line w =
           (case find (\<lambda>c. command c = h) table of
              None \<Rightarrow> (Inr False, w)
            | Some cmd \<Rightarrow>
                if takes_arg cmd then handled (func cmd (Some r) w)
                else if r \<noteq> [] then (Inr False, w)
                else handled (func cmd None w))"
  using assms by (simp add: parse_and_dispatch_def Let_def)

lemma parse_load:
  "str_strip ''load'' = ''load''" "str_lower (takeWhile (\<lambda>c. \<not> isspace c) ''load'') = ''load''"
  "str_strip (dropWhile (\<lambda>c. \<not> isspace c) ''load'') = []"
  by code_simp+

lemma parse_delete:
  "str_strip ''delete'' = ''delete''" "str_lower (takeWhile (\<lambda>c. \<not> isspace c) ''delete'') = ''delete''"
  "str_strip (dropWhile (\<lambda>c. \<not> isspace c) ''delete'') = []"
  by code_simp+

lemma parse_exit:
  "str_strip ''exit'' = ''exit''" "str_lower (takeWhile (\<lambda>c. \<not> isspace c) ''exit'') = ''exit''"
  "str_strip (dropWhile (\<lambda>c. \<not> isspace c) ''exit'') = []"
  by code_simp+

lemma parse_list_extra:
  "str_strip ''list extra text'' = ''list extra text''"
  "str_lower (takeWhile (\<lambda>c. \<not> isspace c) ''list extra text'') = ''list''"
  "str_strip (dropWhile (\<lambda>c. \<not> isspace c) ''list extra text'') = ''extra text''"
  by code_simp+

lemma run_load_no_arg:
  "run_command (command_table ev) ''load'' w = (Inr True, py_print ''Usage: load <name>'' w)"
  by (simp add: run_command_eq parse_and_dispatch_parsed[OF parse_load(1) _ parse_load(2,3)]
        command_table_def handled_def with_arg_def cmd_load_def)

lemma run_delete_no_arg:
  "run_command (command_table ev) ''delete'' w = (Inr True, py_print ''Usage: delete <name>'' w)"
  by (simp add: run_command_eq parse_and_dispatch_parsed[OF parse_delete(1) _ parse_delete(2,3)]
        command_table_def handled_def with_arg_def cmd_delete_def)

lemma run_list_extra:
  "run_command (command_table ev) ''list extra text'' w = (Inr False, w)"
  by (simp add: run_command_eq
        parse_and_dispatch_parsed[OF parse_list_extra(1) _ parse_list_extra(2,3)]
        command_table_def)

lemma run_exit:
  "run_command (command_table ev) ''exit'' w = handled (cmd_exit ev w)"
  by (simp add: run_command_eq parse_and_dispatch_parsed[OF parse_exit(1) _ parse_exit(2,3)]
        command_table_def no_arg_def)

lemma cmd_exit_outcome:
  "fst (cmd_exit ev w) =
     (if active w \<noteq> [] \<and> \<not> truthy_name (current_name w)
      then (case generate_title_from_mem ev w of Inl e \<Rightarrow> Inl e | Inr title \<Rightarrow> Inl SystemExit)
      else Inl SystemExit)"
  by (simp add: cmd_exit_def Let_def split: sum.split)

lemma run_exit_outcome:
  "fst (run_command (command_table ev) ''exit'' w) =
     (if active w \<noteq> [] \<and> \<not> truthy_name (current_name w)
      then (case generate_title_from_mem ev w of Inl e \<Rightarrow> Inl e | Inr title \<Rightarrow> Inl SystemExit)
      else Inl SystemExit)"
  by (simp add: run_exit handled_def cmd_exit_def Let_def split: sum.split)

lemma run_exit_not_handled: "fst (run_command (command_table ev) ''exit'' w) \<noteq> Inr True"
  by (simp add: run_exit_outcome split: sum.split)

lemma handled_not_False: "fst (handled r) \<noteq> Inr False"
  by (cases r) (auto simp: handled_def split: sum.splits)

lemma run_command_False_iff:
  "fst (run_command table line w) = Inr False \<longleftrightarrow> not_a_command table line"
  by (simp add: run_command_eq parse_and_dispatch_def not_a_command_def Let_def handled_not_False
        split: option.split)

lemma run_command_False_state:
  assumes "fst (run_command table line w) = Inr False"
  shows "run_command table line w = (Inr False, w)"
  using assms
  by (simp add: run_command_eq parse_and_dispatch_def Let_def handled_not_False
        split: option.splits if_splits)

lemma loop_body_chat:
  assumes "run_command (command_table ev) line w = (Inr False, w)"
  shows "loop_body ev line w =
           (case model_reply ev (active w @ [\<lparr>role = ''user'', content = line\<rparr>]) of
              Inl e \<Rightarrow> (Inl e, mem_append \<lparr>role = ''user'', content = line\<rparr> w)
            | Inr reply \<Rightarrow>
                (Inr True,
                 mem_append \<lparr>role = ''assistant'', content = reply\<rparr>
                   (py_print (YELLOW @ reply @ RESET)
                      (mem_append \<lparr>role = ''user'', content = line\<rparr> w))))"
  by (simp add: loop_body_def assms Let_def active_def mem_append_def split: sum.split)

text \<open>
  Claim C3, as amended. \<^const>\<open>run_command\<close> computes the dispatch algorithm of the
  specification on every table, line and state: an empty trimmed line and an unknown
  head give \<^verbatim>\<open>NotACommand\<close>, an entry with \<open>takes_arg\<close> is invoked with the trimmed
  remainder, an entry without it is not invoked when the remainder is non-empty
  (\<^verbatim>\<open>NotACommand\<close>) and is invoked when it is empty. With the table of \<^verbatim>\<open>main\<close>,
  \<open>load\<close> and \<open>delete\<close> without argument print their usage line and change nothing
  else, \<open>list extra text\<close> is not a command, and every line that is not a command falls
  through to chat: the loop sends it to the model as a user message. An invoked handler
  that returns gives \<^verbatim>\<open>Handled\<close>; an exception of the handler is propagated with the
  state the handler left. \<open>exit\<close> is invoked and never gives \<^verbatim>\<open>Handled\<close>: it raises
  \<^verbatim>\<open>SystemExit\<close>, except that with a non-empty unbound conversation and a failing title
  request it raises the error of the model call.
\<close>

theorem run_command_dispatch:
  "run_command table line w = parse_and_dispatch table line w \<and>
   handled (Inr (), w1) = (Inr True, w1) \<and>
   handled (Inl e, w1) = (Inl e, w1) \<and>
   run_command (command_table ev) ''load'' w = (Inr True, py_print ''Usage: load <name>'' w) \<and>
   run_command (command_table ev) ''delete'' w = (Inr True, py_print ''Usage: delete <name>'' w) \<and>
   run_command (command_table ev) ''list extra text'' w = (Inr False, w) \<and>
   (fst (run_command (command_table ev) line w) = Inr False \<longrightarrow>
      run_command (command_table ev) line w = (Inr False, w) \<and>
      loop_body ev line w =
        (case model_reply ev (active w @ [\<lparr>role = ''user'', content = line\<rparr>]) of
           Inl e \<Rightarrow> (Inl e, mem_append \<lparr>role = ''user'', content = line\<rparr> w)
         | Inr reply \<Rightarrow>
             (Inr True,
              mem_append \<lparr>role = ''assistant'', content = reply\<rparr>
                (py_print (YELLOW @ reply @ RESET)
                   (mem_append \<lparr>role = ''user'', content = line\<rparr> w))))) \<and>
   run_command (command_table ev) ''exit'' w = handled (cmd_exit ev w) \<and>
   fst (run_command (command_table ev) ''exit'' w) =
     (if active w \<noteq> [] \<and> \<not> truthy_name (current_name w)
      then (case generate_title_from_mem ev w of Inl e \<Rightarrow> Inl e | Inr title \<Rightarrow> Inl SystemExit)
      else Inl SystemExit) \<and>
   fst (run_command (command_table ev) ''exit'' w) \<noteq> Inr True"
  using run_command_eq[of table line w] run_load_no_arg[of ev w] run_delete_no_arg[of ev w]
    run_list_extra[of ev w] run_exit[of ev w] run_exit_outcome[of ev w]
    run_exit_not_handled[of ev w]
    run_command_False_state[of "command_table ev" line w]
    loop_body_chat[OF run_command_False_state, of ev line w]
  by (simp add: handled_def)

text \<open>
  The claim as stated says that every invoked case returns \<^verbatim>\<open>Handled\<close>. The line
  \<open>exit\<close> matches the entry \<open>exit\<close>, which takes no argument, with an empty remainder,
  so its handler is invoked; \<^const>\<open>run_command\<close> then does not return \<^verbatim>\<open>Handled\<close>: the
  handler raises \<^verbatim>\<open>SystemExit\<close>.
\<close>

theorem run_command_exit_counterexample:
  "map_option takes_arg (find (\<lambda>c. command c = ''exit'') (command_table demo_env)) = Some False \<and>
   run_command (command_table demo_env) ''exit'' (init_state demo_dir) =
     handled (cmd_exit demo_env (init_state demo_dir)) \<and>
   fst (run_command (command_table demo_env) ''exit'' (init_state demo_dir)) = Inl SystemExit \<and>
   fst (run_command (command_table demo_env) ''exit'' (init_state demo_dir)) \<noteq> Inr True"
proof -
  have 1: "map_option takes_arg (find (\<lambda>c. command c = ''exit'') (command_table demo_env)) = Some False"
    by (simp add: command_table_def)
  have 2: "fst (run_command (command_table demo_env) ''exit'' (init_state demo_dir)) = Inl SystemExit"
    by (simp add: run_exit_outcome init_state_def active_def)
  show ?thesis using 1 2 by (simp add: run_exit)
qed

theorem run_command_dispatch_witness:
  "run_command (command_table demo_env) ''load'' demo_state =
     (Inr True, py_print ''Usage: load <name>'' demo_state) \<and>
   fst (run_command (command_table demo_env) ''list extra text'' demo_state) = Inr False \<and>
   fst (loop_body demo_env ''list extra text'' demo_state) = Inr True \<and>
   parse_and_dispatch (command_table demo_env) ''   '' demo_state = (Inr False, demo_state) \<and>
   fst (run_command (command_table demo_env) ''exit'' demo_state) = Inl SystemExit \<and>
   fst (run_command (command_table failing_env) ''exit'' demo_state) = Inl (APIError ''Connection error.'')"
proof -
  have "str_strip ''   '' = []" by code_simp
  then have blank: "run_command (command_table demo_env) ''   '' demo_state = (Inr False, demo_state)"
    by (simp add: run_command_def)
  note r = run_command_dispatch[where table = "command_table demo_env" and line = "''   ''"
      and w = demo_state and ev = demo_env and ?w1.0 = demo_state and e = SystemExit]
  note q = run_command_dispatch[where table = "command_table demo_env" and line = "''list extra text''"
      and w = demo_state and ev = demo_env and ?w1.0 = demo_state and e = SystemExit]
  note f = run_command_dispatch[where table = "command_table failing_env" and line = "''exit''"
      and w = demo_state and ev = failing_env and ?w1.0 = demo_state and e = SystemExit]
  have 1: "parse_and_dispatch (command_table demo_env) ''   '' demo_state = (Inr False, demo_state)"
    using r[THEN conjunct1] blank by simp
  have 2: "run_command (command_table demo_env) ''load'' demo_state =
     (Inr True, py_print ''Usage: load <name>'' demo_state)"
    using r by blast
  have "run_command (command_table demo_env) ''list extra text'' demo_state = (Inr False, demo_state)"
    using q by blast
  then have 3: "fst (run_command (command_table demo_env) ''list extra text'' demo_state) = Inr False"
    by simp
  have s: "str_strip '' My Title '' = ''My Title''" by code_simp
  have m: "model_reply demo_env ms = Inr ''My Title''" for ms
    by (simp add: model_reply_def demo_env_def s)
  have "loop_body demo_env ''list extra text'' demo_state =
        (case model_reply demo_env (active demo_state @ [\<lparr>role = ''user'', content = ''list extra text''\<rparr>]) of
           Inl e \<Rightarrow> (Inl e, mem_append \<lparr>role = ''user'', content = ''list extra text''\<rparr> demo_state)
         | Inr reply \<Rightarrow>
             (Inr True,
              mem_append \<lparr>role = ''assistant'', content = reply\<rparr>
                (py_print (YELLOW @ reply @ RESET)
                   (mem_append \<lparr>role = ''user'', content = ''list extra text''\<rparr> demo_state))))"
    using q 3 by blast
  then have 4: "fst (loop_body demo_env ''list extra text'' demo_state) = Inr True"
    by (simp add: m)
  have un: "\<not> truthy_name (current_name demo_state)"
    by (simp add: demo_state_def init_state_def mem_append_def truthy_name_def)
  have ne: "active demo_state \<noteq> []" by (simp add: demo_active)
  have g1: "generate_title_from_mem demo_env demo_state = Inr ''My Title''"
    by (simp add: generate_title_from_mem_def m)
  have g2: "generate_title_from_mem failing_env demo_state = Inl (APIError ''Connection error.'')"
    by (simp add: generate_title_from_mem_def model_reply_def failing_env_def)
  have "fst (run_command (command_table demo_env) ''exit'' demo_state) =
     (if active demo_state \<noteq> [] \<and> \<not> truthy_name (current_name demo_state)
      then (case generate_title_from_mem demo_env demo_state of Inl e \<Rightarrow> Inl e | Inr title \<Rightarrow> Inl SystemExit)
      else Inl SystemExit)"
    using r by blast
  then have 5: "fst (run_command (command_table demo_env) ''exit'' demo_state) = Inl SystemExit"
    by (simp add: un ne g1)
  have "fst (run_command (command_table failing_env) ''exit'' demo_state) =
     (if active demo_state \<noteq> [] \<and> \<not> truthy_name (current_name demo_state)
      then (case generate_title_from_mem failing_env demo_state of Inl e \<Rightarrow> Inl e | Inr title \<Rightarrow> Inl SystemExit)
      else Inl SystemExit)"
    using f by blast
  then have 6: "fst (run_command (command_table failing_env) ''exit'' demo_state) = Inl (APIError ''Connection error.'')"
    by (simp add: un ne g2)
  show ?thesis using 1 2 3 4 5 6 by blast
qed

text \<open>
  Claim C10. \<^const>\<open>run_command\<close> answers \<^verbatim>\<open>NotACommand\<close> exactly in the three cases
  (empty trimmed line, no matching entry, trailing text after a command without
  argument), and then the state it returns is the state it was given: conversation,
  bound name, catalog, directory and output are unchanged. The loop of \<^verbatim>\<open>main\<close> then
  appends the raw line as a user message to that unchanged conversation and sends it to
  the model.
\<close>

theorem failed_dispatch_is_pure:
  "(fst (run_command table line w) = Inr False \<longleftrightarrow> not_a_command table line) \<and>
   (fst (run_command table line w) = Inr False \<longrightarrow> run_command table line w = (Inr False, w)) \<and>
   (fst (run_command (command_table ev) line w) = Inr False \<longrightarrow>
      loop_body ev line w =
        (case model_reply ev (active w @ [\<lparr>role = ''user'', content = line\<rparr>]) of
           Inl e \<Rightarrow> (Inl e, mem_append \<lparr>role = ''user'', content = line\<rparr> w)
         | Inr reply \<Rightarrow>
             (Inr True,
              mem_append \<lparr>role = ''assistant'', content = reply\<rparr>
                (py_print (YELLOW @ reply @ RESET)
                   (mem_append \<lparr>role = ''user'', content = line\<rparr> w)))))"
  using run_command_False_iff[of table line w] run_command_False_state[of table line w]
    loop_body_chat[OF run_command_False_state, of ev line w]
  by blast

theorem failed_dispatch_is_pure_witness:
  "fst (run_command (command_table demo_env) ''list extra text'' demo_state) = Inr False \<and>
   not_a_command (command_table demo_env) ''list extra text'' \<and>
   snd (run_command (command_table demo_env) ''list extra text'' demo_state) = demo_state \<and>
   fst (loop_body demo_env ''list extra text'' demo_state) = Inr True \<and>
   active (snd (loop_body demo_env ''list extra text'' demo_state)) =
     [\<lparr>role = ''user'', content = ''hi''\<rparr>,
      \<lparr>role = ''user'', content = ''list extra text''\<rparr>,
      \<lparr>role = ''assistant'', content = ''My Title''\<rparr>] \<and>
   \<not> not_a_command (command_table demo_env) [CHR ''e'', CHR ''x'', CHR ''i'', CHR ''t'', CHR 0xA0] \<and>
   fst (run_command (command_table demo_env) [CHR ''e'', CHR ''x'', CHR ''i'', CHR ''t'', CHR 0xA0] demo_state)
     \<noteq> Inr False"
proof -
  let ?T = "command_table demo_env" and ?l = "''list extra text''"
  let ?x = "[CHR ''e'', CHR ''x'', CHR ''i'', CHR ''t'', CHR 0xA0]"
  have sx: "str_strip ?x = ''exit''" by code_simp
  have 6: "\<not> not_a_command ?T ?x"
    unfolding not_a_command_def sx Let_def parse_exit(2,3)
    by (simp add: command_table_def)
  have 7: "fst (run_command ?T ?x demo_state) \<noteq> Inr False"
    using failed_dispatch_is_pure[where table = ?T and line = ?x and w = demo_state] 6 by blast
  have h: "fst (run_command ?T ?l demo_state) = Inr False" by (simp add: run_list_extra)
  note r = failed_dispatch_is_pure[where table = ?T and line = ?l and w = demo_state and ev = demo_env]
  have 1: "not_a_command ?T ?l" using r h by blast
  have 2: "run_command ?T ?l demo_state = (Inr False, demo_state)" using r h by blast
  have 3: "loop_body demo_env ?l demo_state =
        (case model_reply demo_env (active demo_state @ [\<lparr>role = ''user'', content = ?l\<rparr>]) of
           Inl e \<Rightarrow> (Inl e, mem_append \<lparr>role = ''user'', content = ?l\<rparr> demo_state)
         | Inr reply \<Rightarrow>
             (Inr True,
              mem_append \<lparr>role = ''assistant'', content = reply\<rparr>
                (py_print (YELLOW @ reply @ RESET)
                   (mem_append \<lparr>role = ''user'', content = ?l\<rparr> demo_state))))"
    using r h by blast
  have s: "str_strip '' My Title '' = ''My Title''" by code_simp
  have m: "model_reply demo_env ms = Inr ''My Title''" for ms
    by (simp add: model_reply_def demo_env_def s)
  have 4: "fst (loop_body demo_env ?l demo_state) = Inr True" by (simp add: 3 m)
  have 5: "active (snd (loop_body demo_env ?l demo_state)) =
     [\<lparr>role = ''user'', content = ''hi''\<rparr>,
      \<lparr>role = ''user'', content = ''list extra text''\<rparr>,
      \<lparr>role = ''assistant'', content = ''My Title''\<rparr>]"
    using demo_active by (simp add: 3 m active_def mem_append_def py_print_def)
  show ?thesis using h 1 2 4 5 6 7 by simp
qed

section \<open>Delete\<close>

lemma load_files_dir: "history_dir (load_files files w) = history_dir w"
proof (induction files arbitrary: w)
  case Nil
  show ?case by simp
next
  case (Cons f fs)
  show ?case
    by (simp add: Cons.IH json_load_def new_list_def Let_def split: option.split file_content.split)
qed

lemma load_history_dir: "history_dir (load_history w) = history_dir w"
  by (simp add: load_history_def Let_def py_print_def load_files_dir)

lemma cmd_delete_usage: "cmd_delete w [] = py_print ''Usage: delete <name>'' w"
  by (simp add: cmd_delete_def)

lemma cmd_delete_not_found:
  "n \<noteq> [] \<Longrightarrow> map_of (history_by_name w) n = None \<Longrightarrow>
     cmd_delete w n = py_print ''No conversation found with that name.'' w"
  by (simp add: cmd_delete_def)

lemma cmd_delete_file_missing:
  "n \<noteq> [] \<Longrightarrow> map_of (history_by_name w) n \<noteq> None \<Longrightarrow>
     \<not> os_path_exists (history_dir w) (json_path n) \<Longrightarrow>
     cmd_delete w n = py_print ''Conversation file not found on disk.'' w"
  by (auto simp: cmd_delete_def Let_def)

lemma cmd_delete_success:
  "n \<noteq> [] \<Longrightarrow> map_of (history_by_name w) n \<noteq> None \<Longrightarrow>
     os_path_exists (history_dir w) (json_path n) \<Longrightarrow>
     cmd_delete w n =
       w\<lparr>history_dir := AList.delete (json_path n) (history_dir w),
         history := filter (\<lambda>item. name item \<noteq> n) (history w),
         history_by_name := AList.delete n (history_by_name w),
         current_name := (if current_name w = Some n then None else current_name w),
         stdout := stdout w @ [''Deleted conversation: '' @ n]\<rparr>"
  by (auto simp: cmd_delete_def Let_def py_print_def os_remove_def)

text \<open>
  Claim C8, as amended. For every non-empty name \<open>n\<close>: when \<open>n\<close> is not a key of the
  catalog, \<^const>\<open>cmd_delete\<close> prints the not-found line and changes nothing else; when it
  is a key and the file \<open>n.json\<close> does not exist, it prints the file-missing line and
  changes nothing else, so the catalog entry stays; when it is a key and the file exists,
  the file is removed and every other file is as before, the catalog order loses every
  entry with the name \<open>n\<close> and keeps the others in order, the catalog loses the key \<open>n\<close>
  and keeps the others, the bound name is cleared exactly when it was \<open>n\<close>, the active
  conversation and every list object are untouched, the deletion is printed, and
  deleting \<open>n\<close> again at once gives the not-found line. For the empty name
  \<^const>\<open>cmd_delete\<close> prints its usage line and changes nothing else, whatever the catalog
  and the directory hold.
\<close>

theorem cmd_delete_contract:
  assumes "n \<noteq> []"
  shows
    "(map_of (history_by_name w) n = None \<longrightarrow>
        cmd_delete w n = py_print ''No conversation found with that name.'' w) \<and>
     (map_of (history_by_name w) n \<noteq> None \<and> \<not> os_path_exists (history_dir w) (json_path n) \<longrightarrow>
        cmd_delete w n = py_print ''Conversation file not found on disk.'' w) \<and>
     (map_of (history_by_name w) n \<noteq> None \<and> os_path_exists (history_dir w) (json_path n) \<longrightarrow>
        \<not> os_path_exists (history_dir (cmd_delete w n)) (json_path n) \<and>
        (\<forall>f. f \<noteq> json_path n \<longrightarrow>
           map_of (history_dir (cmd_delete w n)) f = map_of (history_dir w) f) \<and>
        history (cmd_delete w n) = filter (\<lambda>item. name item \<noteq> n) (history w) \<and>
        (\<forall>item \<in> set (history (cmd_delete w n)). name item \<noteq> n) \<and>
        map_of (history_by_name (cmd_delete w n)) n = None \<and>
        (\<forall>k. k \<noteq> n \<longrightarrow>
           map_of (history_by_name (cmd_delete w n)) k = map_of (history_by_name w) k) \<and>
        current_name (cmd_delete w n) = (if current_name w = Some n then None else current_name w) \<and>
        mem (cmd_delete w n) = mem w \<and>
        heap (cmd_delete w n) = heap w \<and>
        active (cmd_delete w n) = active w \<and>
        stdout (cmd_delete w n) = stdout w @ [''Deleted conversation: '' @ n] \<and>
        cmd_delete (cmd_delete w n) n =
          py_print ''No conversation found with that name.'' (cmd_delete w n)) \<and>
     cmd_delete w [] = py_print ''Usage: delete <name>'' w"
proof (intro conjI impI)
  assume "map_of (history_by_name w) n = None"
  with assms show "cmd_delete w n = py_print ''No conversation found with that name.'' w"
    by (rule cmd_delete_not_found)
next
  assume "map_of (history_by_name w) n \<noteq> None \<and> \<not> os_path_exists (history_dir w) (json_path n)"
  with assms show "cmd_delete w n = py_print ''Conversation file not found on disk.'' w"
    by (simp add: cmd_delete_file_missing)
next
  assume a: "map_of (history_by_name w) n \<noteq> None \<and> os_path_exists (history_dir w) (json_path n)"
  then have eq: "cmd_delete w n =
       w\<lparr>history_dir := AList.delete (json_path n) (history_dir w),
         history := filter (\<lambda>item. name item \<noteq> n) (history w),
         history_by_name := AList.delete n (history_by_name w),
         current_name := (if current_name w = Some n then None else current_name w),
         stdout := stdout w @ [''Deleted conversation: '' @ n]\<rparr>"
    using assms by (simp add: cmd_delete_success)
  show "\<not> os_path_exists (history_dir (cmd_delete w n)) (json_path n)"
    by (simp add: eq os_path_exists_def delete_conv)
  show "\<forall>f. f \<noteq> json_path n \<longrightarrow>
           map_of (history_dir (cmd_delete w n)) f = map_of (history_dir w) f"
    by (simp add: eq delete_conv)
  show "history (cmd_delete w n) = filter (\<lambda>item. name item \<noteq> n) (history w)"
    by (simp add: eq)
  show "\<forall>item \<in> set (history (cmd_delete w n)). name item \<noteq> n"
    by (simp add: eq)
  show gone: "map_of (history_by_name (cmd_delete w n)) n = None"
    by (simp add: eq delete_conv)
  show "\<forall>k. k \<noteq> n \<longrightarrow>
           map_of (history_by_name (cmd_delete w n)) k = map_of (history_by_name w) k"
    by (simp add: eq delete_conv)
  show "current_name (cmd_delete w n) = (if current_name w = Some n then None else current_name w)"
    by (simp add: eq)
  show "mem (cmd_delete w n) = mem w" by (simp add: eq)
  show "heap (cmd_delete w n) = heap w" by (simp add: eq)
  show "active (cmd_delete w n) = active w" by (simp add: eq active_def)
  show "stdout (cmd_delete w n) = stdout w @ [''Deleted conversation: '' @ n]" by (simp add: eq)
  show "cmd_delete (cmd_delete w n) n =
          py_print ''No conversation found with that name.'' (cmd_delete w n)"
    using assms gone by (rule cmd_delete_not_found)
next
  show "cmd_delete w [] = py_print ''Usage: delete <name>'' w" by (rule cmd_delete_usage)
qed

lemma endswith_x_json: "str_endswith (str_lower ''x.json'') ''.json''"
  by code_simp

lemma endswith_blank_json: "str_endswith (str_lower ''.json'') ''.json''"
  by code_simp

lemma str_nat_1: "str_nat (Suc 0) = ''1''" by code_simp

lemma demo_load_history:
  "load_history demo_state =
     demo_state\<lparr>heap := (heap demo_state)(1 := [\<lparr>role = ''user'', content = ''old''\<rparr>]),
       next_ref := 2,
       history := [\<lparr>name = ''x'', created = ''2024-01-01T00:00:00'', conversation = 1\<rparr>],
       history_by_name := [(''x'', \<lparr>name = ''x'', created = ''2024-01-01T00:00:00'', conversation = 1\<rparr>)],
       stdout := [''Loaded 1 conversations from history.'']\<rparr>"
  by (simp add: load_history_def Let_def os_listdir_def demo_state_def init_state_def
        mem_append_def demo_dir_def endswith_x_json json_load_def new_list_def py_print_def str_nat_1)

lemma blank_load_history:
  "load_history (init_state blank_dir) =
     (init_state blank_dir)\<lparr>heap := (heap (init_state blank_dir))(1 := [\<lparr>role = ''user'', content = ''old''\<rparr>]),
       next_ref := 2,
       history := [\<lparr>name = [], created = ''2024-01-01T00:00:00'', conversation = 1\<rparr>],
       history_by_name := [([], \<lparr>name = [], created = ''2024-01-01T00:00:00'', conversation = 1\<rparr>)],
       stdout := [''Loaded 1 conversations from history.'']\<rparr>"
  by (simp add: load_history_def Let_def os_listdir_def init_state_def
        blank_dir_def endswith_blank_json json_load_def new_list_def py_print_def str_nat_1)

text \<open>
  The claim as stated is about every name. For the empty name \<^const>\<open>cmd_delete\<close> stops at
  its first test: when the catalog does not hold the empty name the line printed is the
  usage line, not the not-found line; and when the catalog holds it and the file
  \<^verbatim>\<open>.json\<close> exists, nothing is deleted.
\<close>

theorem cmd_delete_empty_name_counterexample:
  "map_of (history_by_name (init_state demo_dir)) [] = None \<and>
   stdout (cmd_delete (init_state demo_dir) []) = [''Usage: delete <name>''] \<and>
   stdout (cmd_delete (init_state demo_dir) []) \<noteq> [''No conversation found with that name.''] \<and>
   map_of (history_by_name (load_history (init_state blank_dir))) [] \<noteq> None \<and>
   os_path_exists (history_dir (load_history (init_state blank_dir))) (json_path []) \<and>
   os_path_exists (history_dir (cmd_delete (load_history (init_state blank_dir)) [])) (json_path []) \<and>
   map_of (history_by_name (cmd_delete (load_history (init_state blank_dir)) [])) [] \<noteq> None"
proof -
  have 1: "map_of (history_by_name (init_state demo_dir)) [] = None"
    by (simp add: init_state_def)
  have 2: "stdout (cmd_delete (init_state demo_dir) []) = [''Usage: delete <name>'']"
    by (simp add: cmd_delete_usage init_state_def py_print_def)
  have 3: "map_of (history_by_name (load_history (init_state blank_dir))) [] \<noteq> None"
    by (simp add: blank_load_history)
  have 4: "os_path_exists (history_dir (load_history (init_state blank_dir))) (json_path [])"
    by (simp add: load_history_dir init_state_def blank_dir_def os_path_exists_def json_path_def)
  have 5: "cmd_delete (load_history (init_state blank_dir)) [] =
             py_print ''Usage: delete <name>'' (load_history (init_state blank_dir))"
    by (rule cmd_delete_usage)
  show ?thesis using 1 2 3 4 by (simp add: 5 py_print_def)
qed

lemma demo_mem: "mem demo_state = 0"
  by (simp add: demo_state_def init_state_def mem_append_def)

theorem cmd_delete_contract_witness:
  "''x'' \<noteq> [] \<and>
   map_of (history_by_name (load_history demo_state)) ''x'' \<noteq> None \<and>
   os_path_exists (history_dir (load_history demo_state)) (json_path ''x'') \<and>
   history_dir (cmd_delete (load_history demo_state) ''x'') = [] \<and>
   history (cmd_delete (load_history demo_state) ''x'') = [] \<and>
   map_of (history_by_name (cmd_delete (load_history demo_state) ''x'')) ''x'' = None \<and>
   active (cmd_delete (load_history demo_state) ''x'') = [\<lparr>role = ''user'', content = ''hi''\<rparr>] \<and>
   map_of (history_by_name (load_history demo_state)) ''y'' = None \<and>
   stdout (cmd_delete (load_history demo_state) ''y'') =
     [''Loaded 1 conversations from history.'', ''No conversation found with that name.'']"
proof -
  let ?W = "load_history demo_state"
  have n: "''x'' \<noteq> []" by simp
  have c: "map_of (history_by_name ?W) ''x'' \<noteq> None" by (simp add: demo_load_history)
  have f: "os_path_exists (history_dir ?W) (json_path ''x'')"
    by (simp add: demo_load_history demo_history_dir demo_dir_def os_path_exists_def json_path_def)
  note r = cmd_delete_contract[OF n, of ?W]
  have 2: "history (cmd_delete ?W ''x'') = filter (\<lambda>item. name item \<noteq> ''x'') (history ?W)"
    using r c f by blast
  have 3: "map_of (history_by_name (cmd_delete ?W ''x'')) ''x'' = None"
    using r c f by blast
  have 4: "active (cmd_delete ?W ''x'') = active ?W"
    using r c f by blast
  have d: "history_dir (cmd_delete ?W ''x'') = []"
    using n c f by (simp add: cmd_delete_success demo_load_history demo_history_dir demo_dir_def json_path_def)
  have a: "active ?W = active demo_state"
    by (simp add: demo_load_history active_def demo_mem)
  have y: "map_of (history_by_name ?W) ''y'' = None" by (simp add: demo_load_history)
  have "''y'' \<noteq> []" by simp
  from cmd_delete_contract[OF this, of ?W] y
  have "cmd_delete ?W ''y'' = py_print ''No conversation found with that name.'' ?W" by blast
  then have 6: "stdout (cmd_delete ?W ''y'') =
     [''Loaded 1 conversations from history.'', ''No conversation found with that name.'']"
    by (simp add: py_print_def demo_load_history)
  show ?thesis using n c f d 2 3 4 a y 6 by (simp add: demo_load_history demo_active)
qed

section \<open>Saving on exit\<close>

lemma unique_path_suffixed:
  assumes ex: "os_path_exists d (json_path n)"
  shows "\<exists>i. 2 \<le> i \<and>
           unique_path d n = (n @ ''-'' @ str_nat i, json_path (n @ ''-'' @ str_nat i)) \<and>
           \<not> os_path_exists d (json_path (n @ ''-'' @ str_nat i)) \<and>
           (\<forall>j. 2 \<le> j \<and> j < i \<longrightarrow> os_path_exists d (json_path (n @ ''-'' @ str_nat j)))"
proof -
  let ?P = "\<lambda>j. 2 \<le> j \<and> \<not> os_path_exists d (candidate_path n j)"
  define k where "k = (LEAST j. ?P j)"
  have "\<exists>j. ?P j" by (rule free_index_exists)
  then have Pk: "?P k" unfolding k_def by (rule LeastI_ex)
  have least: "\<And>j. ?P j \<Longrightarrow> k \<le> j" unfolding k_def by (rule Least_le)
  have res: "unique_path d n = (n @ ''-'' @ str_nat k, candidate_path n k)"
    using ex by (simp add: unique_path_def unique_loop_least k_def Let_def)
  have below: "\<forall>j. 2 \<le> j \<and> j < k \<longrightarrow> os_path_exists d (json_path (n @ ''-'' @ str_nat j))"
    using least by (fastforce simp: candidate_path_def)
  show ?thesis
    using Pk res below by (intro exI[of _ k]) (simp add: candidate_path_def)
qed

lemma cmd_exit_empty: "active w = [] \<Longrightarrow> cmd_exit ev w = (Inl SystemExit, w)"
  by (simp add: cmd_exit_def)

lemma save_conversation_name:
  assumes "active w \<noteq> []" and "unique_path (history_dir w) n = (fn, p)"
  shows "current_name (save_conversation ev w n) = Some fn"
  by (simp add: save_conversation_nonempty[OF assms])

lemma active_py_print: "active (py_print l w) = active w"
  by (simp add: active_def py_print_def)

lemma current_name_py_print: "current_name (py_print l w) = current_name w"
  by (simp add: py_print_def)

lemma history_dir_py_print: "history_dir (py_print l w) = history_dir w"
  by (simp add: py_print_def)

lemma cmd_exit_bound:
  assumes ne: "active w \<noteq> []" and b: "current_name w = Some n" "n \<noteq> []"
    and up: "unique_path (history_dir w) n = (fn, p)"
  shows "cmd_exit ev w =
           (Inl SystemExit, py_print (''Saved as: '' @ fn) (save_conversation ev w n))"
  using ne b
  by (simp add: cmd_exit_def truthy_name_def format_name_def Let_def
        save_conversation_name[OF ne up])

lemma cmd_exit_unbound:
  assumes ne: "active w \<noteq> []" and u: "\<not> truthy_name (current_name w)"
    and t: "generate_title_from_mem ev w = Inr title"
    and up: "unique_path (history_dir w)
               (if sanitize_filename title \<noteq> [] then sanitize_filename title else now_strftime ev) = (fn, p)"
  shows "cmd_exit ev w =
           (Inl SystemExit,
            py_print (''Saved as: '' @ fn)
              (save_conversation ev (py_print title w)
                 (if sanitize_filename title \<noteq> [] then sanitize_filename title else now_strftime ev)))"
proof -
  have ne': "active (py_print title w) \<noteq> []" using ne by (simp add: active_py_print)
  have up': "unique_path (history_dir (py_print title w))
               (if sanitize_filename title \<noteq> [] then sanitize_filename title else now_strftime ev) = (fn, p)"
    using up by (simp add: history_dir_py_print)
  show ?thesis
    using ne u t
    by (simp add: cmd_exit_def format_name_def Let_def save_conversation_name[OF ne' up'])
qed

lemma cmd_exit_unbound_fails:
  assumes "active w \<noteq> []" and "\<not> truthy_name (current_name w)"
    and "generate_title_from_mem ev w = Inl e"
  shows "cmd_exit ev w = (Inl e, w)"
  using assms by (simp add: cmd_exit_def)

lemma loop_body_exit:
  assumes "fst (cmd_exit ev w) = Inl SystemExit"
  shows "loop_body ev ''exit'' w = (Inr False, snd (cmd_exit ev w))"
  using assms by (cases "cmd_exit ev w") (simp add: loop_body_def run_exit handled_def)

lemma save_conversation_dir:
  assumes "active w \<noteq> []" and "unique_path (history_dir w) n = (fn, p)"
  shows "history_dir (save_conversation ev w n) =
           history_dir w @
             [(p, JsonRecord \<lparr>name = fn, created = now_isoformat ev, conversation = active w\<rparr>)]"
  by (simp add: save_conversation_nonempty[OF assms])

lemma save_conversation_active: "active (save_conversation ev w n) = active w"
proof (cases "active w = []")
  case True
  then show ?thesis by (simp add: save_conversation_empty)
next
  case False
  obtain fn p where up: "unique_path (history_dir w) n = (fn, p)"
    by (cases "unique_path (history_dir w) n")
  show ?thesis by (simp add: save_conversation_nonempty[OF False up] active_def)
qed

lemma save_conversation_mem: "mem (save_conversation ev w n) = mem w"
proof (cases "active w = []")
  case True
  then show ?thesis by (simp add: save_conversation_empty)
next
  case False
  obtain fn p where up: "unique_path (history_dir w) n = (fn, p)"
    by (cases "unique_path (history_dir w) n")
  show ?thesis by (simp add: save_conversation_nonempty[OF False up])
qed

lemma cmd_exit_active: "active (snd (cmd_exit ev w)) = active w"
  by (simp add: cmd_exit_def Let_def active_py_print save_conversation_active split: sum.split)

lemma cmd_exit_mem: "mem (snd (cmd_exit ev w)) = mem w"
  by (simp add: cmd_exit_def Let_def py_print_def save_conversation_mem split: sum.split)

lemma map_of_append_fresh:
  assumes "q \<noteq> p"
  shows "map_of (d @ [(p, v)]) q = map_of d q"
  using assms by (simp add: map_add_def split: option.split)

section \<open>The catalog and the files\<close>

lemma str_lower_json: "str_lower ''.json'' = ''.json''"
  by code_simp

lemma str_lower_append: "str_lower (a @ b) = str_lower a @ str_lower b"
  by (simp add: str_lower_def)

lemma endswith_json_path: "str_endswith (str_lower (json_path n)) ''.json''"
  by (simp add: json_path_def str_lower_append str_lower_json str_endswith_def)

lemma json_path_inj: "json_path a = json_path b \<Longrightarrow> a = b"
  by (simp add: json_path_def)

lemma is_key_py_print: "is_key (py_print l w) n = is_key w n"
  by (simp add: is_key_def py_print_def)

lemma load_files_keys:
  "is_key (load_files fs w) n \<longleftrightarrow>
     is_key w n \<or>
     (\<exists>f \<in> set fs. str_endswith (str_lower f) ''.json'' \<and>
        (\<exists>e. map_of (history_dir w) f = Some (JsonRecord e) \<and> name e = n))"
proof (induction fs arbitrary: w)
  case Nil
  show ?case by simp
next
  case (Cons f fs)
  show ?case
  proof (cases "str_endswith (str_lower f) ''.json''")
    case False
    then show ?thesis by (auto simp: Cons.IH)
  next
    case True
    show ?thesis
    proof (cases "map_of (history_dir w) f")
      case None
      with True show ?thesis by (auto simp: Cons.IH)
    next
      case (Some c)
      show ?thesis
      proof (cases c)
        case Unreadable
        with True Some show ?thesis by (auto simp: Cons.IH)
      next
        case (JsonRecord e)
        let ?entry = "\<lparr>name = name e, created = created e, conversation = next_ref w\<rparr>"
        let ?w' = "w\<lparr>heap := (heap w)(next_ref w := conversation e), next_ref := Suc (next_ref w),
                      history := history w @ [?entry],
                      history_by_name := AList.update (name e) ?entry (history_by_name w)\<rparr>"
        have eq: "load_files (f # fs) w = load_files fs ?w'"
          using True Some JsonRecord by (simp add: json_load_def new_list_def)
        have k: "is_key ?w' n \<longleftrightarrow> is_key w n \<or> n = name e"
          by (auto simp: is_key_def update_conv')
        have d: "history_dir ?w' = history_dir w" by simp
        show ?thesis
          unfolding eq Cons.IH[of ?w'] k d using True Some JsonRecord by auto
      qed
    qed
  qed
qed

lemma load_history_keys:
  "is_key (load_history w) n \<longleftrightarrow>
     (\<exists>f \<in> set (map fst (history_dir w)). str_endswith (str_lower f) ''.json'' \<and>
        (\<exists>e. map_of (history_dir w) f = Some (JsonRecord e) \<and> name e = n))"
proof -
  let ?w1 = "w\<lparr>history := [], history_by_name := []\<rparr>"
  have "is_key (load_history w) n = is_key (load_files (os_listdir (history_dir ?w1)) ?w1) n"
    by (simp add: load_history_def Let_def is_key_py_print)
  also have "\<dots> \<longleftrightarrow>
     (\<exists>f \<in> set (map fst (history_dir w)). str_endswith (str_lower f) ''.json'' \<and>
        (\<exists>e. map_of (history_dir w) f = Some (JsonRecord e) \<and> name e = n))"
    unfolding load_files_keys by (simp add: is_key_def os_listdir_def)
  finally show ?thesis .
qed

lemma names_matchD:
  assumes "names_match d" and "map_of d f = Some (JsonRecord e)"
    and "str_endswith (str_lower f) ''.json''"
  shows "f = json_path (name e)"
proof -
  from assms(2) have "(f, JsonRecord e) \<in> set d" by (rule map_of_SomeD)
  with assms(1,3) show ?thesis
    by (auto simp: names_match_def list_all_iff)
qed

lemma record_file_existsD:
  assumes "record_file_exists d n"
  shows "\<exists>e. map_of d (json_path n) = Some (JsonRecord e)"
  using assms by (auto simp: record_file_exists_def split: option.splits file_content.splits)

lemma record_file_existsI:
  assumes "map_of d (json_path n) = Some (JsonRecord e)"
  shows "record_file_exists d n"
  using assms by (simp add: record_file_exists_def)

lemma load_history_consistent:
  assumes nm: "names_match (history_dir w)"
  shows "consistent (load_history w)"
proof -
  let ?d = "history_dir w"
  have "is_key (load_history w) n = record_file_exists ?d n" for n
  proof
    assume "is_key (load_history w) n"
    then obtain f e where f: "str_endswith (str_lower f) ''.json''"
      and e: "map_of ?d f = Some (JsonRecord e)" "name e = n"
      unfolding load_history_keys by blast
    from names_matchD[OF nm e(1) f] e show "record_file_exists ?d n"
      by (auto intro: record_file_existsI)
  next
    assume "record_file_exists ?d n"
    then obtain e where e: "map_of ?d (json_path n) = Some (JsonRecord e)"
      using record_file_existsD by blast
    from names_matchD[OF nm e endswith_json_path] have "name e = n"
      by (auto dest: json_path_inj)
    moreover from e have "json_path n \<in> set (map fst ?d)"
      by (metis map_of_eq_None_iff option.distinct(1) set_map)
    ultimately show "is_key (load_history w) n"
      unfolding load_history_keys using e endswith_json_path by blast
  qed
  then show ?thesis using nm by (simp add: consistent_def load_history_dir)
qed

lemma consistent_frame:
  assumes "history_dir w' = history_dir w" and "history_by_name w' = history_by_name w"
  shows "consistent w' = consistent w"
  using assms by (simp add: consistent_def is_key_def)

lemma save_conversation_consistent:
  assumes c: "consistent w"
  shows "consistent (save_conversation ev w nm)"
proof (cases "active w = []")
  case True
  with c show ?thesis by (simp add: save_conversation_empty)
next
  case False
  obtain fn p where up: "unique_path (history_dir w) nm = (fn, p)"
    by (cases "unique_path (history_dir w) nm")
  note fresh = unique_path_fresh[OF up]
  let ?rec = "JsonRecord \<lparr>name = fn, created = now_isoformat ev, conversation = active w\<rparr>"
  let ?s = "save_conversation ev w nm"
  have dir: "history_dir ?s = history_dir w @ [(p, ?rec)]"
    by (rule save_conversation_dir[OF False up])
  have cat: "history_by_name ?s =
               AList.update fn \<lparr>name = fn, created = now_isoformat ev, conversation = next_ref w\<rparr>
                 (history_by_name w)"
    by (simp add: save_conversation_nonempty[OF False up])
  have none: "map_of (history_dir w) p = None"
    using fresh(2) by (simp add: os_path_exists_def)
  have nm': "names_match (history_dir ?s)"
    using c fresh(1) by (simp add: dir consistent_def names_match_def)
  have "is_key ?s n = record_file_exists (history_dir ?s) n" for n
  proof (cases "n = fn")
    case True
    then show ?thesis
      using none fresh(1)
      by (simp add: is_key_def cat update_conv' dir record_file_exists_def map_add_def)
  next
    case neq: False
    then have "json_path n \<noteq> p" using fresh(1) by (auto dest: json_path_inj)
    then have "record_file_exists (history_dir ?s) n = record_file_exists (history_dir w) n"
      by (simp add: dir record_file_exists_def map_add_def split: option.split)
    moreover have "is_key ?s n = is_key w n"
      using neq by (simp add: is_key_def cat update_conv')
    ultimately show ?thesis using c by (simp add: consistent_def)
  qed
  with nm' show ?thesis by (simp add: consistent_def)
qed

lemma names_match_delete: "names_match d \<Longrightarrow> names_match (AList.delete k d)"
  by (auto simp: names_match_def list_all_iff AList.delete_eq)

lemma cmd_delete_consistent:
  assumes c: "consistent w"
  shows "consistent (cmd_delete w arg)"
proof -
  have pr: "consistent (py_print l w)" for l
    using c consistent_frame[of "py_print l w" w] by (simp add: py_print_def)
  show ?thesis
  proof (cases "arg \<noteq> [] \<and> map_of (history_by_name w) arg \<noteq> None \<and>
                os_path_exists (history_dir w) (json_path arg)")
    case False
    then consider "arg = []" | "arg \<noteq> []" "map_of (history_by_name w) arg = None"
      | "arg \<noteq> []" "map_of (history_by_name w) arg \<noteq> None"
        "\<not> os_path_exists (history_dir w) (json_path arg)"
      by blast
    then show ?thesis
    proof cases
      case 1
      then show ?thesis by (simp add: cmd_delete_usage pr)
    next
      case 2
      then show ?thesis by (simp add: cmd_delete_not_found pr)
    next
      case 3
      then show ?thesis by (simp add: cmd_delete_file_missing pr)
    qed
  next
    case True
    then have eq: "cmd_delete w arg =
       w\<lparr>history_dir := AList.delete (json_path arg) (history_dir w),
         history := filter (\<lambda>item. name item \<noteq> arg) (history w),
         history_by_name := AList.delete arg (history_by_name w),
         current_name := (if current_name w = Some arg then None else current_name w),
         stdout := stdout w @ [''Deleted conversation: '' @ arg]\<rparr>"
      by (simp add: cmd_delete_success)
    have nm: "names_match (history_dir (cmd_delete w arg))"
      using c by (simp add: eq consistent_def names_match_delete)
    have "is_key (cmd_delete w arg) n = record_file_exists (history_dir (cmd_delete w arg)) n" for n
    proof (cases "n = arg")
      case True
      then show ?thesis
        by (simp add: eq is_key_def record_file_exists_def delete_conv)
    next
      case False
      then have "json_path n \<noteq> json_path arg" by (auto dest: json_path_inj)
      with False have "is_key (cmd_delete w arg) n = is_key w n"
        and "record_file_exists (history_dir (cmd_delete w arg)) n = record_file_exists (history_dir w) n"
        by (simp_all add: eq is_key_def record_file_exists_def delete_conv)
      with c show ?thesis by (simp add: consistent_def)
    qed
    with nm show ?thesis by (simp add: consistent_def)
  qed
qed

lemma cmd_reload_consistent:
  assumes "consistent w"
  shows "consistent (cmd_reload w)"
  unfolding cmd_reload_def
  using assms by (intro load_history_consistent) (simp add: consistent_def)

lemma consistent_py_print: "consistent (py_print l w) = consistent w"
  by (rule consistent_frame) (simp_all add: py_print_def)

lemma consistent_mem_append: "consistent (mem_append m w) = consistent w"
  by (rule consistent_frame) (simp_all add: mem_append_def)

lemma foldl_print_consistent:
  "consistent (foldl (\<lambda>w1 x. py_print (g x) w1) w xs) = consistent w"
  by (induction xs arbitrary: w) (simp_all add: consistent_py_print)

lemma cmd_list_consistent: "consistent (cmd_list w) = consistent w"
  by (simp add: cmd_list_def foldl_print_consistent consistent_py_print)

lemma cmd_help_consistent: "consistent (cmd_help rows w) = consistent w"
proof -
  have "(\<lambda>w1 (c, d). py_print (''  '' @ ljust 16 c @ '' '' @ d) w1) =
        (\<lambda>w1 x. py_print (''  '' @ ljust 16 (fst x) @ '' '' @ snd x) w1)"
    by (auto simp: fun_eq_iff)
  then show ?thesis
    by (simp add: cmd_help_def foldl_print_consistent consistent_py_print)
qed

lemma cmd_new_consistent: "consistent (cmd_new w) = consistent w"
  by (rule consistent_frame) (simp_all add: cmd_new_def py_print_def mem_clear_def)

lemma load_conversation_consistent: "consistent (load_conversation w nm) = consistent w"
  by (rule consistent_frame)
     (simp_all add: load_conversation_def new_list_def py_print_def split: option.split)

lemma cmd_load_consistent: "consistent (cmd_load w arg) = consistent w"
  by (simp add: cmd_load_def consistent_py_print load_conversation_consistent)

lemma cmd_compress_consistent: "consistent (snd (cmd_compress ev w)) = consistent w"
  by (rule consistent_frame)
     (simp_all add: cmd_compress_def Let_def new_list_def py_print_def mem_append_def
        split: sum.split)

lemma cmd_exit_consistent:
  assumes "consistent w"
  shows "consistent (snd (cmd_exit ev w))"
  using assms
  by (simp add: cmd_exit_def Let_def consistent_py_print save_conversation_consistent
        split: sum.split)

lemma snd_handled: "snd (handled r) = snd r"
  by (cases r) (simp add: handled_def split: sum.split)

lemma table_handlers_consistent:
  assumes "cmd \<in> set (command_table ev)" and "consistent w"
  shows "consistent (snd (func cmd a w))"
  using assms
  by (cases a)
     (auto simp: command_table_def no_arg_def with_arg_def returns_def cmd_help_consistent
        cmd_list_consistent cmd_load_consistent cmd_delete_consistent cmd_compress_consistent
        cmd_reload_consistent cmd_new_consistent cmd_exit_consistent)

lemma run_command_consistent:
  assumes c: "consistent w"
  shows "consistent (snd (run_command (command_table ev) line w))"
proof -
  have h: "find P (command_table ev) = Some cmd \<Longrightarrow> consistent (snd (handled (func cmd a w)))"
    for P cmd a
  proof -
    assume "find P (command_table ev) = Some cmd"
    then have "cmd \<in> set (command_table ev)" by (auto simp: find_Some_iff)
    from table_handlers_consistent[OF this c] show ?thesis by (simp add: snd_handled)
  qed
  show ?thesis
    using c
    by (simp add: run_command_eq parse_and_dispatch_def Let_def h split: option.split)
qed

lemma loop_body_consistent:
  assumes c: "consistent w"
  shows "consistent (snd (loop_body ev line w))"
proof -
  obtain r w1 where rc: "run_command (command_table ev) line w = (r, w1)"
    by (cases "run_command (command_table ev) line w")
  from run_command_consistent[OF c, of ev line] rc have c1: "consistent w1" by simp
  show ?thesis
    using c1
    by (simp add: loop_body_def rc Let_def consistent_mem_append consistent_py_print
          split: sum.split bool.split)
qed

lemma main_start_consistent:
  assumes "names_match d"
  shows "consistent (main_start d)"
  unfolding main_start_def
  using assms by (intro load_history_consistent) (simp add: py_print_def init_state_def)

lemma main_start_dir: "history_dir (main_start d) = d"
  by (simp add: main_start_def load_history_dir py_print_def init_state_def)

lemma reachable_consistent:
  assumes "reachable d w" and "names_match d"
  shows "consistent w"
  using assms
  by (induction rule: reachable.induct) (simp_all add: main_start_consistent loop_body_consistent)

lemma save_conversation_both:
  assumes ne: "active w \<noteq> []" and up: "unique_path (history_dir w) nm = (fn, p)"
  shows "is_key (save_conversation ev w nm) fn \<and>
         record_file_exists (history_dir (save_conversation ev w nm)) fn"
proof -
  note fresh = unique_path_fresh[OF up]
  have none: "map_of (history_dir w) p = None"
    using fresh(2) by (simp add: os_path_exists_def)
  show ?thesis
    using none fresh(1)
    by (simp add: save_conversation_nonempty[OF ne up] is_key_def update_conv'
          record_file_exists_def map_add_def)
qed

lemma cmd_delete_both:
  assumes "arg \<noteq> []" and "is_key w arg" and "os_path_exists (history_dir w) (json_path arg)"
  shows "\<not> is_key (cmd_delete w arg) arg \<and>
         \<not> record_file_exists (history_dir (cmd_delete w arg)) arg"
proof -
  from assms have eq: "cmd_delete w arg =
       w\<lparr>history_dir := AList.delete (json_path arg) (history_dir w),
         history := filter (\<lambda>item. name item \<noteq> arg) (history w),
         history_by_name := AList.delete arg (history_by_name w),
         current_name := (if current_name w = Some arg then None else current_name w),
         stdout := stdout w @ [''Deleted conversation: '' @ arg]\<rparr>"
    by (simp add: cmd_delete_success is_key_def)
  show ?thesis by (simp add: eq is_key_def record_file_exists_def delete_conv)
qed

text \<open>
  Claim C1, as amended. Assume that every record file the scan reads declares the name of
  its own file (\<^const>\<open>names_match\<close>) and that only the program changes the directory.
  Then in the state \<^verbatim>\<open>main\<close> starts its loop with, after the first
  \<^verbatim>\<open>load_history\<close>, and in every state reachable from it by passes through the loop
  body, a name is a key of the catalog exactly when a record file named after it exists
  in the directory. The correspondence (with the assumption on the directory, which the
  operations keep) is established by \<^const>\<open>load_history\<close> from any state and kept by
  \<^const>\<open>save_conversation\<close>, \<^const>\<open>cmd_delete\<close>, \<^const>\<open>cmd_reload\<close>, by every
  dispatched command and by a whole pass through the loop body. A save of a non-empty
  conversation returns with both the key and the file of the final name present; a
  delete that succeeds returns with both absent.
\<close>

theorem catalog_matches_directory:
  "(names_match d \<longrightarrow>
      history_dir (main_start d) = d \<and>
      (\<forall>n. is_key (main_start d) n = record_file_exists d n)) \<and>
   (names_match d \<and> reachable d w \<longrightarrow>
      names_match (history_dir w) \<and>
      (\<forall>n. is_key w n = record_file_exists (history_dir w) n)) \<and>
   (names_match (history_dir w) \<longrightarrow> consistent (load_history w)) \<and>
   (consistent w \<longrightarrow>
      consistent (save_conversation ev w nm) \<and>
      consistent (cmd_delete w arg) \<and>
      consistent (cmd_reload w) \<and>
      consistent (snd (run_command (command_table ev) line w)) \<and>
      consistent (snd (loop_body ev line w))) \<and>
   (active w \<noteq> [] \<and> unique_path (history_dir w) nm = (fn, p) \<longrightarrow>
      is_key (save_conversation ev w nm) fn \<and>
      record_file_exists (history_dir (save_conversation ev w nm)) fn) \<and>
   (arg \<noteq> [] \<and> is_key w arg \<and> os_path_exists (history_dir w) (json_path arg) \<longrightarrow>
      \<not> is_key (cmd_delete w arg) arg \<and>
      \<not> record_file_exists (history_dir (cmd_delete w arg)) arg)"
proof (intro conjI impI)
  assume "names_match d"
  from main_start_consistent[OF this]
  show "\<forall>n. is_key (main_start d) n = record_file_exists d n"
    by (simp add: consistent_def main_start_dir)
next
  show "history_dir (main_start d) = d" by (rule main_start_dir)
next
  assume a: "names_match d \<and> reachable d w"
  then have c: "consistent w" using reachable_consistent by blast
  from c show "names_match (history_dir w)" by (simp add: consistent_def)
  from c show "\<forall>n. is_key w n = record_file_exists (history_dir w) n"
    by (simp add: consistent_def)
next
  assume "names_match (history_dir w)"
  then show "consistent (load_history w)" by (rule load_history_consistent)
next
  assume c: "consistent w"
  show "consistent (save_conversation ev w nm)" by (rule save_conversation_consistent[OF c])
  show "consistent (cmd_delete w arg)" by (rule cmd_delete_consistent[OF c])
  show "consistent (cmd_reload w)" by (rule cmd_reload_consistent[OF c])
  show "consistent (snd (run_command (command_table ev) line w))"
    by (rule run_command_consistent[OF c])
  show "consistent (snd (loop_body ev line w))" by (rule loop_body_consistent[OF c])
next
  assume a: "active w \<noteq> [] \<and> unique_path (history_dir w) nm = (fn, p)"
  then have b: "is_key (save_conversation ev w nm) fn \<and>
      record_file_exists (history_dir (save_conversation ev w nm)) fn"
    using save_conversation_both by blast
  from b show "is_key (save_conversation ev w nm) fn" by blast
  from b show "record_file_exists (history_dir (save_conversation ev w nm)) fn" by blast
next
  assume a: "arg \<noteq> [] \<and> is_key w arg \<and> os_path_exists (history_dir w) (json_path arg)"
  then have b: "\<not> is_key (cmd_delete w arg) arg \<and>
      \<not> record_file_exists (history_dir (cmd_delete w arg)) arg"
    using cmd_delete_both by blast
  from b show "\<not> is_key (cmd_delete w arg) arg" by blast
  from b show "\<not> record_file_exists (history_dir (cmd_delete w arg)) arg" by blast
qed

lemma main_start_keys:
  "is_key (main_start d) n \<longleftrightarrow>
     (\<exists>f \<in> set (map fst d). str_endswith (str_lower f) ''.json'' \<and>
        (\<exists>e. map_of d f = Some (JsonRecord e) \<and> name e = n))"
  by (simp add: main_start_def load_history_keys py_print_def init_state_def)

lemma endswith_a_json: "str_endswith (str_lower ''a.json'') ''.json''"
  by code_simp

text \<open>
  The claim as stated assumes only that no other process changes the directory. The
  catalog is keyed by the name each record declares, not by the name of its file: with
  the one file \<^verbatim>\<open>a.json\<close> that declares the name \<open>b\<close>, the state \<^verbatim>\<open>main\<close>
  starts with has the key \<open>b\<close> and no file \<^verbatim>\<open>b.json\<close>, and has the record file
  \<^verbatim>\<open>a.json\<close> and no key \<open>a\<close>.
\<close>

theorem catalog_mismatch_counterexample:
  "reachable mismatch_dir (main_start mismatch_dir) \<and>
   history_dir (main_start mismatch_dir) = mismatch_dir \<and>
   is_key (main_start mismatch_dir) ''b'' \<and>
   \<not> record_file_exists (history_dir (main_start mismatch_dir)) ''b'' \<and>
   \<not> os_path_exists (history_dir (main_start mismatch_dir)) (json_path ''b'') \<and>
   \<not> is_key (main_start mismatch_dir) ''a'' \<and>
   record_file_exists (history_dir (main_start mismatch_dir)) ''a''"
proof -
  have 1: "reachable mismatch_dir (main_start mismatch_dir)" by (rule reachable.start)
  have 2: "is_key (main_start mismatch_dir) ''b''"
    by (simp add: main_start_keys mismatch_dir_def endswith_a_json)
  have 3: "\<not> is_key (main_start mismatch_dir) ''a''"
    by (simp add: main_start_keys mismatch_dir_def)
  have 4: "\<not> record_file_exists mismatch_dir ''b''"
    by (simp add: record_file_exists_def mismatch_dir_def json_path_def)
  have 5: "record_file_exists mismatch_dir ''a''"
    by (simp add: record_file_exists_def mismatch_dir_def json_path_def)
  have 6: "\<not> os_path_exists mismatch_dir (json_path ''b'')"
    by (simp add: os_path_exists_def mismatch_dir_def json_path_def)
  show ?thesis using 1 2 3 4 5 6 by (simp add: main_start_dir)
qed

lemma parse_delete_x:
  "str_strip ''delete x'' = ''delete x''"
  "str_lower (takeWhile (\<lambda>c. \<not> isspace c) ''delete x'') = ''delete''"
  "str_strip (dropWhile (\<lambda>c. \<not> isspace c) ''delete x'') = ''x''"
  by code_simp+

lemma run_delete_x:
  "run_command (command_table ev) ''delete x'' w = (Inr True, cmd_delete w ''x'')"
  by (simp add: run_command_eq parse_and_dispatch_parsed[OF parse_delete_x(1) _ parse_delete_x(2,3)]
        command_table_def handled_def with_arg_def)

lemma names_match_demo: "names_match demo_dir"
  by (simp add: names_match_def demo_dir_def json_path_def)

theorem catalog_matches_directory_witness:
  "names_match demo_dir \<and>
   reachable demo_dir (main_start demo_dir) \<and>
   is_key (main_start demo_dir) ''x'' \<and>
   record_file_exists (history_dir (main_start demo_dir)) ''x'' \<and>
   \<not> is_key (main_start demo_dir) ''y'' \<and>
   reachable demo_dir (snd (loop_body demo_env ''delete x'' (main_start demo_dir))) \<and>
   snd (loop_body demo_env ''delete x'' (main_start demo_dir)) = cmd_delete (main_start demo_dir) ''x'' \<and>
   \<not> is_key (cmd_delete (main_start demo_dir) ''x'') ''x'' \<and>
   \<not> record_file_exists (history_dir (cmd_delete (main_start demo_dir) ''x'')) ''x''"
proof -
  let ?W = "main_start demo_dir"
  let ?W2 = "snd (loop_body demo_env ''delete x'' ?W)"
  note nm = names_match_demo
  have r1: "reachable demo_dir ?W" by (rule reachable.start)
  have r2: "reachable demo_dir ?W2" by (rule reachable.step[OF r1])
  from catalog_matches_directory[where d = demo_dir and w = ?W] nm r1
  have k: "\<forall>n. is_key ?W n = record_file_exists (history_dir ?W) n" by blast
  have fx: "record_file_exists (history_dir ?W) ''x''"
    by (simp add: main_start_dir record_file_exists_def demo_dir_def json_path_def)
  have fy: "\<not> record_file_exists (history_dir ?W) ''y''"
    by (simp add: main_start_dir record_file_exists_def demo_dir_def json_path_def)
  have kx: "is_key ?W ''x''" using k fx by blast
  have ky: "\<not> is_key ?W ''y''" using k fy by blast
  have eq: "?W2 = cmd_delete ?W ''x''"
    by (simp add: loop_body_def run_delete_x)
  from catalog_matches_directory[where d = demo_dir and w = ?W2] nm r2
  have k2: "\<forall>n. is_key ?W2 n = record_file_exists (history_dir ?W2) n" by blast
  have ex: "os_path_exists (history_dir ?W) (json_path ''x'')"
    by (simp add: main_start_dir os_path_exists_def demo_dir_def json_path_def)
  have "''x'' \<noteq> []" by simp
  with catalog_matches_directory[where w = ?W and arg = "''x''"] kx ex
  have d1: "\<not> is_key (cmd_delete ?W ''x'') ''x''" by blast
  with k2 have d2: "\<not> record_file_exists (history_dir (cmd_delete ?W ''x'')) ''x''"
    by (simp add: eq)
  show ?thesis using nm r1 kx fx ky r2 eq d1 d2 by blast
qed

section \<open>The bound name and its file\<close>

lemma bound_frame:
  assumes "history_dir w' = history_dir w" and "current_name w' = current_name w"
  shows "bound_file_exists w' = bound_file_exists w"
  using assms by (simp add: bound_file_exists_def split: option.split)

lemma bound_py_print: "bound_file_exists (py_print l w) = bound_file_exists w"
  by (rule bound_frame) (simp_all add: py_print_def)

lemma bound_mem_append: "bound_file_exists (mem_append m w) = bound_file_exists w"
  by (rule bound_frame) (simp_all add: mem_append_def)

lemma foldl_print_bound:
  "bound_file_exists (foldl (\<lambda>w1 x. py_print (g x) w1) w xs) = bound_file_exists w"
  by (induction xs arbitrary: w) (simp_all add: bound_py_print)

lemma cmd_list_bound: "bound_file_exists (cmd_list w) = bound_file_exists w"
  by (simp add: cmd_list_def foldl_print_bound bound_py_print)

lemma cmd_help_bound: "bound_file_exists (cmd_help rows w) = bound_file_exists w"
proof -
  have "(\<lambda>w1 (c, d). py_print (''  '' @ ljust 16 c @ '' '' @ d) w1) =
        (\<lambda>w1 x. py_print (''  '' @ ljust 16 (fst x) @ '' '' @ snd x) w1)"
    by (auto simp: fun_eq_iff)
  then show ?thesis
    by (simp add: cmd_help_def foldl_print_bound bound_py_print)
qed

lemma cmd_new_bound: "bound_file_exists (cmd_new w)"
  by (simp add: bound_file_exists_def cmd_new_def py_print_def mem_clear_def)

lemma cmd_compress_bound: "bound_file_exists (snd (cmd_compress ev w)) = bound_file_exists w"
  by (rule bound_frame)
     (simp_all add: cmd_compress_def Let_def new_list_def py_print_def mem_append_def
        split: sum.split)

lemma load_files_current_name: "current_name (load_files fs w) = current_name w"
proof (induction fs arbitrary: w)
  case Nil
  show ?case by simp
next
  case (Cons f fs)
  show ?case
    by (simp add: Cons.IH json_load_def new_list_def Let_def split: option.split file_content.split)
qed

lemma load_history_bound: "bound_file_exists (load_history w) = bound_file_exists w"
  by (rule bound_frame)
     (simp_all add: load_history_dir, simp add: load_history_def Let_def py_print_def load_files_current_name)

lemma cmd_load_bound:
  assumes c: "consistent w" and b: "bound_file_exists w"
  shows "bound_file_exists (cmd_load w arg)"
proof (cases "arg = [] \<or> map_of (history_by_name w) arg = None")
  case True
  then show ?thesis
    using b by (auto simp: cmd_load_def load_conversation_miss bound_py_print)
next
  case False
  then obtain e where e: "map_of (history_by_name w) arg = Some e" and ne: "arg \<noteq> []" by auto
  from e have "is_key w arg" by (simp add: is_key_def)
  with c have "record_file_exists (history_dir w) arg" by (simp add: consistent_def)
  then have "os_path_exists (history_dir w) (json_path arg)"
    by (auto simp: os_path_exists_def dest: record_file_existsD)
  then show ?thesis
    using ne by (simp add: cmd_load_def load_conversation_hit[OF e] bound_file_exists_def)
qed

lemma cmd_delete_bound:
  assumes b: "bound_file_exists w"
  shows "bound_file_exists (cmd_delete w arg)"
proof (cases "arg \<noteq> [] \<and> map_of (history_by_name w) arg \<noteq> None \<and>
              os_path_exists (history_dir w) (json_path arg)")
  case False
  then consider "arg = []" | "arg \<noteq> []" "map_of (history_by_name w) arg = None"
    | "arg \<noteq> []" "map_of (history_by_name w) arg \<noteq> None"
      "\<not> os_path_exists (history_dir w) (json_path arg)"
    by blast
  then show ?thesis
  proof cases
    case 1
    then show ?thesis using b by (simp add: cmd_delete_usage bound_py_print)
  next
    case 2
    then show ?thesis using b by (simp add: cmd_delete_not_found bound_py_print)
  next
    case 3
    then show ?thesis using b by (simp add: cmd_delete_file_missing bound_py_print)
  qed
next
  case True
  then have eq: "cmd_delete w arg =
       w\<lparr>history_dir := AList.delete (json_path arg) (history_dir w),
         history := filter (\<lambda>item. name item \<noteq> arg) (history w),
         history_by_name := AList.delete arg (history_by_name w),
         current_name := (if current_name w = Some arg then None else current_name w),
         stdout := stdout w @ [''Deleted conversation: '' @ arg]\<rparr>"
    by (simp add: cmd_delete_success)
  show ?thesis
    using b
    by (auto simp: eq bound_file_exists_def os_path_exists_def delete_conv
          split: option.splits dest: json_path_inj)
qed

lemma save_conversation_bound:
  assumes b: "bound_file_exists w"
  shows "bound_file_exists (save_conversation ev w nm)"
proof (cases "active w = []")
  case True
  with b show ?thesis by (simp add: save_conversation_empty)
next
  case False
  obtain fn p where up: "unique_path (history_dir w) nm = (fn, p)"
    by (cases "unique_path (history_dir w) nm")
  from unique_path_fresh(1)[OF up] show ?thesis
    by (simp add: save_conversation_nonempty[OF False up] bound_file_exists_def os_path_exists_def)
qed

lemma cmd_exit_bound_kept:
  assumes "bound_file_exists w"
  shows "bound_file_exists (snd (cmd_exit ev w))"
  using assms
  by (simp add: cmd_exit_def Let_def bound_py_print save_conversation_bound split: sum.split)

lemma table_handlers_bound:
  assumes "cmd \<in> set (command_table ev)" and "consistent w" and "bound_file_exists w"
  shows "bound_file_exists (snd (func cmd a w))"
  using assms
  by (cases a)
     (auto simp: command_table_def no_arg_def with_arg_def returns_def cmd_help_bound
        cmd_list_bound cmd_load_bound cmd_delete_bound cmd_compress_bound cmd_reload_def
        load_history_bound cmd_new_bound cmd_exit_bound_kept)

lemma run_command_bound:
  assumes c: "consistent w" and b: "bound_file_exists w"
  shows "bound_file_exists (snd (run_command (command_table ev) line w))"
proof -
  have h: "find P (command_table ev) = Some cmd \<Longrightarrow> bound_file_exists (snd (handled (func cmd a w)))"
    for P cmd a
  proof -
    assume "find P (command_table ev) = Some cmd"
    then have "cmd \<in> set (command_table ev)" by (auto simp: find_Some_iff)
    from table_handlers_bound[OF this c b] show ?thesis by (simp add: snd_handled)
  qed
  show ?thesis
    using b
    by (simp add: run_command_eq parse_and_dispatch_def Let_def h split: option.split)
qed

lemma loop_body_bound:
  assumes c: "consistent w" and b: "bound_file_exists w"
  shows "bound_file_exists (snd (loop_body ev line w))"
proof -
  obtain r w1 where rc: "run_command (command_table ev) line w = (r, w1)"
    by (cases "run_command (command_table ev) line w")
  from run_command_bound[OF c b, of ev line] rc have b1: "bound_file_exists w1" by simp
  show ?thesis
    using b1
    by (simp add: loop_body_def rc Let_def bound_mem_append bound_py_print
          split: sum.split bool.split)
qed

lemma main_start_bound: "bound_file_exists (main_start d)"
proof -
  have "current_name (main_start d) = None"
    by (simp add: main_start_def load_history_def Let_def py_print_def load_files_current_name
          init_state_def)
  then show ?thesis by (simp add: bound_file_exists_def)
qed

lemma reachable_bound:
  assumes "reachable d w" and "names_match d"
  shows "bound_file_exists w"
  using assms
proof (induction rule: reachable.induct)
  case (start d)
  show ?case by (rule main_start_bound)
next
  case (step d w ev line)
  from step.hyps step.prems have "consistent w" by (rule reachable_consistent)
  moreover from step.IH step.prems have "bound_file_exists w" by simp
  ultimately show ?case by (rule loop_body_bound)
qed

section \<open>Exit\<close>

text \<open>
  Claim C9, as amended. With an empty active conversation \<^const>\<open>cmd_exit\<close> raises
  \<^verbatim>\<open>SystemExit\<close> and leaves the state, so the directory, as it is. With a non-empty
  conversation bound to a name (a name that is not empty, the test
  \<^verbatim>\<open>if state.current_name\<close>) it saves under that name as the desired name and raises
  \<^verbatim>\<open>SystemExit\<close>: one new file is added under the name \<^const>\<open>unique_path\<close> resolves.
  When the file of the bound name exists, that name is the bound name with a suffix
  \<open>-i\<close>, \<open>i \<ge> 2\<close> the first free index, the new file is another file, and the file of
  the bound name is as it was; the file of the bound name does exist in every state the
  program reaches from a directory whose record files declare the names of their own
  files. When the file of the bound name does not exist, the new file is the file of the
  bound name itself. With a non-empty unbound conversation it asks the model for a title
  with the active conversation followed by the title instruction; when the model answers,
  it saves under the sanitized title, or under the timestamp when the sanitized title is
  empty, and raises \<^verbatim>\<open>SystemExit\<close>; when the model call raises, its error is
  propagated, nothing is saved and the state is as before. On every path the active
  conversation is the same list with the same messages as before, and \<^verbatim>\<open>SystemExit\<close>
  makes the loop of \<^verbatim>\<open>main\<close> stop.
\<close>

theorem cmd_exit_contract:
  "(active w = [] \<longrightarrow> cmd_exit ev w = (Inl SystemExit, w)) \<and>
   (active w \<noteq> [] \<and> current_name w = Some n \<and> n \<noteq> [] \<longrightarrow>
      (\<exists>fn p. unique_path (history_dir w) n = (fn, p) \<and>
         cmd_exit ev w =
           (Inl SystemExit, py_print (''Saved as: '' @ fn) (save_conversation ev w n)) \<and>
         history_dir (snd (cmd_exit ev w)) =
           history_dir w @
             [(p, JsonRecord \<lparr>name = fn, created = now_isoformat ev, conversation = active w\<rparr>)] \<and>
         current_name (snd (cmd_exit ev w)) = Some fn \<and>
         p = json_path fn \<and>
         \<not> os_path_exists (history_dir w) p \<and>
         (os_path_exists (history_dir w) (json_path n) \<longrightarrow>
            (\<exists>i. 2 \<le> i \<and> fn = n @ ''-'' @ str_nat i \<and>
                 (\<forall>j. 2 \<le> j \<and> j < i \<longrightarrow>
                    os_path_exists (history_dir w) (json_path (n @ ''-'' @ str_nat j)))) \<and>
            p \<noteq> json_path n \<and>
            map_of (history_dir (snd (cmd_exit ev w))) (json_path n) =
              map_of (history_dir w) (json_path n)) \<and>
         (\<not> os_path_exists (history_dir w) (json_path n) \<longrightarrow> fn = n \<and> p = json_path n))) \<and>
   (names_match d \<and> reachable d w \<and> current_name w = Some n \<and> n \<noteq> [] \<longrightarrow>
      os_path_exists (history_dir w) (json_path n)) \<and>
   (active w \<noteq> [] \<and> \<not> truthy_name (current_name w) \<and> generate_title_from_mem ev w = Inr title \<longrightarrow>
      (\<exists>fn p.
         unique_path (history_dir w)
           (if sanitize_filename title \<noteq> [] then sanitize_filename title else now_strftime ev) = (fn, p) \<and>
         cmd_exit ev w =
           (Inl SystemExit,
            py_print (''Saved as: '' @ fn)
              (save_conversation ev (py_print title w)
                 (if sanitize_filename title \<noteq> [] then sanitize_filename title else now_strftime ev))) \<and>
         history_dir (snd (cmd_exit ev w)) =
           history_dir w @
             [(p, JsonRecord \<lparr>name = fn, created = now_isoformat ev, conversation = active w\<rparr>)] \<and>
         current_name (snd (cmd_exit ev w)) = Some fn \<and>
         p = json_path fn \<and>
         \<not> os_path_exists (history_dir w) p)) \<and>
   (active w \<noteq> [] \<and> \<not> truthy_name (current_name w) \<and> generate_title_from_mem ev w = Inl e \<longrightarrow>
      cmd_exit ev w = (Inl e, w)) \<and>
   generate_title_from_mem ev w =
     model_reply ev (active w @ [\<lparr>role = ''user'', content = TITLE_PROMPT\<rparr>]) \<and>
   active (snd (cmd_exit ev w)) = active w \<and>
   mem (snd (cmd_exit ev w)) = mem w \<and>
   (fst (cmd_exit ev w) = Inl SystemExit \<longrightarrow>
      loop_body ev ''exit'' w = (Inr False, snd (cmd_exit ev w)))"
proof (intro conjI impI)
  assume "active w = []"
  then show "cmd_exit ev w = (Inl SystemExit, w)" by (rule cmd_exit_empty)
next
  assume a: "active w \<noteq> [] \<and> current_name w = Some n \<and> n \<noteq> []"
  then have ne: "active w \<noteq> []" and b: "current_name w = Some n" "n \<noteq> []" by blast+
  obtain fn p where up: "unique_path (history_dir w) n = (fn, p)"
    by (cases "unique_path (history_dir w) n")
  note fresh = unique_path_fresh[OF up]
  note eq = cmd_exit_bound[OF ne b up, of ev]
  have dir: "history_dir (snd (cmd_exit ev w)) =
           history_dir w @
             [(p, JsonRecord \<lparr>name = fn, created = now_isoformat ev, conversation = active w\<rparr>)]"
    by (simp add: eq history_dir_py_print save_conversation_dir[OF ne up])
  have nm: "current_name (snd (cmd_exit ev w)) = Some fn"
    by (simp add: eq py_print_def save_conversation_name[OF ne up])
  have taken: "os_path_exists (history_dir w) (json_path n) \<longrightarrow>
            (\<exists>i. 2 \<le> i \<and> fn = n @ ''-'' @ str_nat i \<and>
                 (\<forall>j. 2 \<le> j \<and> j < i \<longrightarrow>
                    os_path_exists (history_dir w) (json_path (n @ ''-'' @ str_nat j)))) \<and>
            p \<noteq> json_path n \<and>
            map_of (history_dir (snd (cmd_exit ev w))) (json_path n) =
              map_of (history_dir w) (json_path n)"
  proof
    assume ex: "os_path_exists (history_dir w) (json_path n)"
    from unique_path_suffixed[OF ex] up obtain i where
      i: "2 \<le> i" "fn = n @ ''-'' @ str_nat i"
         "\<forall>j. 2 \<le> j \<and> j < i \<longrightarrow> os_path_exists (history_dir w) (json_path (n @ ''-'' @ str_nat j))"
      by auto
    have neq: "p \<noteq> json_path n" using ex fresh(2) by auto
    then have "map_of (history_dir (snd (cmd_exit ev w))) (json_path n) =
              map_of (history_dir w) (json_path n)"
      by (simp only: dir map_of_append_fresh[OF neq[symmetric]])
    with i neq show "(\<exists>i. 2 \<le> i \<and> fn = n @ ''-'' @ str_nat i \<and>
                 (\<forall>j. 2 \<le> j \<and> j < i \<longrightarrow>
                    os_path_exists (history_dir w) (json_path (n @ ''-'' @ str_nat j)))) \<and>
            p \<noteq> json_path n \<and>
            map_of (history_dir (snd (cmd_exit ev w))) (json_path n) =
              map_of (history_dir w) (json_path n)"
      by blast
  qed
  have free: "\<not> os_path_exists (history_dir w) (json_path n) \<longrightarrow> fn = n \<and> p = json_path n"
    using up by (auto simp: unique_path_def Let_def)
  show "\<exists>fn p. unique_path (history_dir w) n = (fn, p) \<and>
         cmd_exit ev w =
           (Inl SystemExit, py_print (''Saved as: '' @ fn) (save_conversation ev w n)) \<and>
         history_dir (snd (cmd_exit ev w)) =
           history_dir w @
             [(p, JsonRecord \<lparr>name = fn, created = now_isoformat ev, conversation = active w\<rparr>)] \<and>
         current_name (snd (cmd_exit ev w)) = Some fn \<and>
         p = json_path fn \<and>
         \<not> os_path_exists (history_dir w) p \<and>
         (os_path_exists (history_dir w) (json_path n) \<longrightarrow>
            (\<exists>i. 2 \<le> i \<and> fn = n @ ''-'' @ str_nat i \<and>
                 (\<forall>j. 2 \<le> j \<and> j < i \<longrightarrow>
                    os_path_exists (history_dir w) (json_path (n @ ''-'' @ str_nat j)))) \<and>
            p \<noteq> json_path n \<and>
            map_of (history_dir (snd (cmd_exit ev w))) (json_path n) =
              map_of (history_dir w) (json_path n)) \<and>
         (\<not> os_path_exists (history_dir w) (json_path n) \<longrightarrow> fn = n \<and> p = json_path n)"
    using up eq dir nm fresh taken free by blast
next
  assume a: "names_match d \<and> reachable d w \<and> current_name w = Some n \<and> n \<noteq> []"
  then have "bound_file_exists w" using reachable_bound by blast
  with a show "os_path_exists (history_dir w) (json_path n)"
    by (simp add: bound_file_exists_def)
next
  assume a: "active w \<noteq> [] \<and> \<not> truthy_name (current_name w) \<and> generate_title_from_mem ev w = Inr title"
  then have ne: "active w \<noteq> []" and u: "\<not> truthy_name (current_name w)"
    and t: "generate_title_from_mem ev w = Inr title" by blast+
  let ?nm = "if sanitize_filename title \<noteq> [] then sanitize_filename title else now_strftime ev"
  obtain fn p where up: "unique_path (history_dir w) ?nm = (fn, p)"
    by (cases "unique_path (history_dir w) ?nm")
  note fresh = unique_path_fresh[OF up]
  note eq = cmd_exit_unbound[OF ne u t up]
  have ne': "active (py_print title w) \<noteq> []" using ne by (simp add: active_py_print)
  have up': "unique_path (history_dir (py_print title w)) ?nm = (fn, p)"
    using up by (simp add: history_dir_py_print)
  have dir: "history_dir (snd (cmd_exit ev w)) =
           history_dir w @
             [(p, JsonRecord \<lparr>name = fn, created = now_isoformat ev, conversation = active w\<rparr>)]"
    by (simp only: eq snd_conv history_dir_py_print save_conversation_dir[OF ne' up'] active_py_print)
  have nm: "current_name (snd (cmd_exit ev w)) = Some fn"
    by (simp only: eq snd_conv current_name_py_print save_conversation_name[OF ne' up'])
  show "\<exists>fn p.
         unique_path (history_dir w) ?nm = (fn, p) \<and>
         cmd_exit ev w =
           (Inl SystemExit,
            py_print (''Saved as: '' @ fn) (save_conversation ev (py_print title w) ?nm)) \<and>
         history_dir (snd (cmd_exit ev w)) =
           history_dir w @
             [(p, JsonRecord \<lparr>name = fn, created = now_isoformat ev, conversation = active w\<rparr>)] \<and>
         current_name (snd (cmd_exit ev w)) = Some fn \<and>
         p = json_path fn \<and>
         \<not> os_path_exists (history_dir w) p"
    using up eq dir nm fresh by blast
next
  assume "active w \<noteq> [] \<and> \<not> truthy_name (current_name w) \<and> generate_title_from_mem ev w = Inl e"
  then show "cmd_exit ev w = (Inl e, w)" by (simp add: cmd_exit_unbound_fails)
next
  show "generate_title_from_mem ev w =
     model_reply ev (active w @ [\<lparr>role = ''user'', content = TITLE_PROMPT\<rparr>])"
    by (simp add: generate_title_from_mem_def)
next
  show "active (snd (cmd_exit ev w)) = active w" by (rule cmd_exit_active)
next
  show "mem (snd (cmd_exit ev w)) = mem w" by (rule cmd_exit_mem)
next
  assume "fst (cmd_exit ev w) = Inl SystemExit"
  then show "loop_body ev ''exit'' w = (Inr False, snd (cmd_exit ev w))" by (rule loop_body_exit)
qed

lemma demo_now:
  "now_isoformat demo_env = ''2024-05-06T07:08:09''" "now_strftime demo_env = ''2024-05-06_07-08-09''"
  by (simp_all add: demo_env_def)

lemma mismatch_catalog:
  "history_by_name (main_start mismatch_dir) =
     [(''b'', \<lparr>name = ''b'', created = ''2024-01-01T00:00:00'', conversation = 1\<rparr>)]"
  by (simp add: main_start_def load_history_def Let_def os_listdir_def init_state_def
        mismatch_dir_def endswith_a_json json_load_def new_list_def py_print_def)

lemma mismatch_heap:
  "heap (main_start mismatch_dir) (Suc 0) = [\<lparr>role = ''user'', content = ''old''\<rparr>]"
  by (simp add: main_start_def load_history_def Let_def os_listdir_def init_state_def
        mismatch_dir_def endswith_a_json json_load_def new_list_def py_print_def)

lemma mismatch_loaded:
  "active (load_conversation (main_start mismatch_dir) ''b'') = [\<lparr>role = ''user'', content = ''old''\<rparr>]"
  "current_name (load_conversation (main_start mismatch_dir) ''b'') = Some ''b''"
  "history_dir (load_conversation (main_start mismatch_dir) ''b'') = mismatch_dir"
proof -
  have e: "map_of (history_by_name (main_start mismatch_dir)) ''b'' =
          Some \<lparr>name = ''b'', created = ''2024-01-01T00:00:00'', conversation = 1\<rparr>"
    by (simp add: mismatch_catalog)
  note l = load_conversation_hit[OF e]
  show "active (load_conversation (main_start mismatch_dir) ''b'') = [\<lparr>role = ''user'', content = ''old''\<rparr>]"
    by (simp add: l active_def mismatch_heap)
  show "current_name (load_conversation (main_start mismatch_dir) ''b'') = Some ''b''"
    by (simp add: l)
  show "history_dir (load_conversation (main_start mismatch_dir) ''b'') = mismatch_dir"
    by (simp add: l main_start_dir)
qed

lemma parse_load_b:
  "str_strip ''load b'' = ''load b''"
  "str_lower (takeWhile (\<lambda>c. \<not> isspace c) ''load b'') = ''load''"
  "str_strip (dropWhile (\<lambda>c. \<not> isspace c) ''load b'') = ''b''"
  by code_simp+

lemma run_load_b:
  "run_command (command_table ev) ''load b'' w = (Inr True, load_conversation w ''b'')"
  by (simp add: run_command_eq parse_and_dispatch_parsed[OF parse_load_b(1) _ parse_load_b(2,3)]
        command_table_def handled_def with_arg_def cmd_load_def)

text \<open>
  The claim as stated says that with a bound name the save of \<open>exit\<close> produces a
  suffixed file, because the file of the bound name exists. Started on the directory
  whose file \<^verbatim>\<open>a.json\<close> declares the name \<open>b\<close>, the program binds \<open>b\<close> by
  \<open>load b\<close>; no file \<^verbatim>\<open>b.json\<close> exists, and \<open>exit\<close> then writes \<^verbatim>\<open>b.json\<close>
  itself, without a suffix. The claim also says that with an unbound conversation
  \<open>exit\<close> saves and terminates; when the model call for the title raises, \<open>exit\<close>
  saves nothing and leaves with that error.
\<close>

theorem cmd_exit_unsuffixed_counterexample:
  "reachable mismatch_dir (load_conversation (main_start mismatch_dir) ''b'') \<and>
   active (load_conversation (main_start mismatch_dir) ''b'') = [\<lparr>role = ''user'', content = ''old''\<rparr>] \<and>
   current_name (load_conversation (main_start mismatch_dir) ''b'') = Some ''b'' \<and>
   \<not> os_path_exists (history_dir (load_conversation (main_start mismatch_dir) ''b'')) (json_path ''b'') \<and>
   fst (cmd_exit demo_env (load_conversation (main_start mismatch_dir) ''b'')) = Inl SystemExit \<and>
   history_dir (snd (cmd_exit demo_env (load_conversation (main_start mismatch_dir) ''b''))) =
     mismatch_dir @
       [(''b.json'', JsonRecord \<lparr>name = ''b'', created = ''2024-05-06T07:08:09'',
           conversation = [\<lparr>role = ''user'', content = ''old''\<rparr>]\<rparr>)] \<and>
   active demo_state = [\<lparr>role = ''user'', content = ''hi''\<rparr>] \<and>
   current_name demo_state = None \<and>
   cmd_exit failing_env demo_state = (Inl (APIError ''Connection error.''), demo_state)"
proof -
  let ?L = "load_conversation (main_start mismatch_dir) ''b''"
  have "reachable mismatch_dir (snd (loop_body demo_env ''load b'' (main_start mismatch_dir)))"
    by (rule reachable.step[OF reachable.start])
  then have 1: "reachable mismatch_dir ?L" by (simp add: loop_body_def run_load_b)
  have ne: "active ?L \<noteq> []" by (simp add: mismatch_loaded)
  have nx: "\<not> os_path_exists (history_dir ?L) (json_path ''b'')"
    unfolding mismatch_loaded(3)
    by (simp add: os_path_exists_def mismatch_dir_def json_path_def)
  then have up: "unique_path (history_dir ?L) ''b'' = (''b'', ''b.json'')"
    by (simp add: unique_path_def Let_def json_path_def)
  have xn: "''b'' \<noteq> []" by simp
  note eq = cmd_exit_bound[OF ne mismatch_loaded(2) xn up, of demo_env]
  have 2: "fst (cmd_exit demo_env ?L) = Inl SystemExit" by (simp add: eq)
  have 3: "history_dir (snd (cmd_exit demo_env ?L)) =
     mismatch_dir @
       [(''b.json'', JsonRecord \<lparr>name = ''b'', created = ''2024-05-06T07:08:09'',
           conversation = [\<lparr>role = ''user'', content = ''old''\<rparr>]\<rparr>)]"
    by (simp add: eq history_dir_py_print save_conversation_dir[OF ne up] mismatch_loaded demo_now)
  have cn: "current_name demo_state = None"
    by (simp add: demo_state_def init_state_def mem_append_def)
  have g: "generate_title_from_mem failing_env demo_state = Inl (APIError ''Connection error.'')"
    by (simp add: generate_title_from_mem_def model_reply_def failing_env_def)
  have 4: "cmd_exit failing_env demo_state = (Inl (APIError ''Connection error.''), demo_state)"
    by (rule cmd_exit_unbound_fails) (simp_all add: demo_active cn truthy_name_def g)
  show ?thesis using 1 nx 2 3 cn 4 by (simp add: mismatch_loaded demo_active)
qed

lemma demo_loaded:
  "load_conversation (load_history demo_state) ''x'' =
     (load_history demo_state)\<lparr>heap := (heap (load_history demo_state))(2 := [\<lparr>role = ''user'', content = ''old''\<rparr>]),
        next_ref := 3, mem := 2, current_name := Some ''x'',
        stdout := [''Loaded 1 conversations from history.'', ''Loaded conversation: x'']\<rparr>"
proof -
  have "map_of (history_by_name (load_history demo_state)) ''x'' =
          Some \<lparr>name = ''x'', created = ''2024-01-01T00:00:00'', conversation = 1\<rparr>"
    by (simp add: demo_load_history)
  from load_conversation_hit[OF this] show ?thesis
    by (simp add: demo_load_history)
qed

lemma demo_unique_title:
  "unique_path (history_dir demo_state) ''My Title'' = (''My Title'', ''My Title.json'')"
  by code_simp

lemma demo_unique_stamp:
  "unique_path (history_dir demo_state) ''2024-05-06_07-08-09'' =
     (''2024-05-06_07-08-09'', ''2024-05-06_07-08-09.json'')"
  by code_simp

lemma parse_load_x:
  "str_strip ''load x'' = ''load x''"
  "str_lower (takeWhile (\<lambda>c. \<not> isspace c) ''load x'') = ''load''"
  "str_strip (dropWhile (\<lambda>c. \<not> isspace c) ''load x'') = ''x''"
  by code_simp+

lemma run_load_x:
  "run_command (command_table ev) ''load x'' w = (Inr True, load_conversation w ''x'')"
  by (simp add: run_command_eq parse_and_dispatch_parsed[OF parse_load_x(1) _ parse_load_x(2,3)]
        command_table_def handled_def with_arg_def cmd_load_def)

theorem cmd_exit_contract_witness:
  "cmd_exit demo_env (init_state demo_dir) = (Inl SystemExit, init_state demo_dir) \<and>
   fst (cmd_exit demo_env demo_state) = Inl SystemExit \<and>
   history_dir (snd (cmd_exit demo_env demo_state)) =
     demo_dir @
       [(''My Title.json'', JsonRecord \<lparr>name = ''My Title'', created = ''2024-05-06T07:08:09'',
           conversation = [\<lparr>role = ''user'', content = ''hi''\<rparr>]\<rparr>)] \<and>
   history_dir (snd (cmd_exit (demo_env\<lparr>client := (\<lambda>messages. Inr ''?'')\<rparr>) demo_state)) =
     demo_dir @
       [(''2024-05-06_07-08-09.json'',
         JsonRecord \<lparr>name = ''2024-05-06_07-08-09'', created = ''2024-05-06T07:08:09'',
           conversation = [\<lparr>role = ''user'', content = ''hi''\<rparr>]\<rparr>)] \<and>
   cmd_exit failing_env demo_state = (Inl (APIError ''Connection error.''), demo_state) \<and>
   current_name (load_conversation (load_history demo_state) ''x'') = Some ''x'' \<and>
   os_path_exists (history_dir (load_conversation (load_history demo_state) ''x'')) (json_path ''x'') \<and>
   history_dir (snd (cmd_exit demo_env (load_conversation (load_history demo_state) ''x''))) =
     demo_dir @
       [(''x-2.json'', JsonRecord \<lparr>name = ''x-2'', created = ''2024-05-06T07:08:09'',
           conversation = [\<lparr>role = ''user'', content = ''old''\<rparr>]\<rparr>)] \<and>
   fst (loop_body demo_env ''exit'' demo_state) = Inr False \<and>
   names_match demo_dir \<and>
   reachable demo_dir (load_conversation (main_start demo_dir) ''x'') \<and>
   current_name (load_conversation (main_start demo_dir) ''x'') = Some ''x'' \<and>
   os_path_exists (history_dir (load_conversation (main_start demo_dir) ''x'')) (json_path ''x'')"
proof -
  let ?R = "load_conversation (main_start demo_dir) ''x''"
  have "reachable demo_dir (snd (loop_body demo_env ''load x'' (main_start demo_dir)))"
    by (rule reachable.step[OF reachable.start])
  then have rr: "reachable demo_dir ?R" by (simp add: loop_body_def run_load_x)
  have "is_key (main_start demo_dir) ''x''"
    by (simp add: main_start_keys demo_dir_def endswith_x_json)
  then obtain ex where "map_of (history_by_name (main_start demo_dir)) ''x'' = Some ex"
    by (auto simp: is_key_def)
  from load_conversation_hit[OF this] have rn: "current_name ?R = Some ''x''" by simp
  have "''x'' \<noteq> []" by simp
  with cmd_exit_contract[where d = demo_dir and w = ?R and n = "''x''"] names_match_demo rr rn
  have rf: "os_path_exists (history_dir ?R) (json_path ''x'')" by blast
  let ?ev2 = "demo_env\<lparr>client := (\<lambda>messages. Inr ''?'')\<rparr>"
  let ?L = "load_conversation (load_history demo_state) ''x''"
  have e0: "active (init_state demo_dir) = []" by (simp add: init_state_def active_def)
  have 1: "cmd_exit demo_env (init_state demo_dir) = (Inl SystemExit, init_state demo_dir)"
    using cmd_exit_contract[of "init_state demo_dir" demo_env] e0 by blast
  have ne: "active demo_state \<noteq> []" by (simp add: demo_active)
  have un: "\<not> truthy_name (current_name demo_state)"
    by (simp add: demo_state_def init_state_def mem_append_def truthy_name_def)
  have s1: "str_strip '' My Title '' = ''My Title''" by code_simp
  have s2: "sanitize_filename ''My Title'' = ''My Title''" by code_simp
  have s3: "str_strip ''?'' = ''?''" by code_simp
  have s4: "sanitize_filename ''?'' = []" by code_simp
  have g1: "generate_title_from_mem demo_env demo_state = Inr ''My Title''"
    by (simp add: generate_title_from_mem_def model_reply_def demo_env_def s1)
  have g2: "generate_title_from_mem ?ev2 demo_state = Inr ''?''"
    by (simp add: generate_title_from_mem_def model_reply_def s3)
  have g3: "generate_title_from_mem failing_env demo_state = Inl (APIError ''Connection error.'')"
    by (simp add: generate_title_from_mem_def model_reply_def failing_env_def)
  note r1 = cmd_exit_contract[where w = demo_state and ev = demo_env and title = "''My Title''"]
  from r1 ne un g1 obtain fn p where
    a: "unique_path (history_dir demo_state)
          (if sanitize_filename ''My Title'' \<noteq> [] then sanitize_filename ''My Title''
           else now_strftime demo_env) = (fn, p)"
    and b: "cmd_exit demo_env demo_state =
           (Inl SystemExit,
            py_print (''Saved as: '' @ fn)
              (save_conversation demo_env (py_print ''My Title'' demo_state)
                 (if sanitize_filename ''My Title'' \<noteq> [] then sanitize_filename ''My Title''
                  else now_strftime demo_env)))"
    and c: "history_dir (snd (cmd_exit demo_env demo_state)) =
           history_dir demo_state @
             [(p, JsonRecord \<lparr>name = fn, created = now_isoformat demo_env, conversation = active demo_state\<rparr>)]"
    by blast
  from a have fp: "fn = ''My Title''" "p = ''My Title.json''"
    by (simp_all add: s2 demo_unique_title)
  have 2: "fst (cmd_exit demo_env demo_state) = Inl SystemExit" by (simp add: b)
  have 3: "history_dir (snd (cmd_exit demo_env demo_state)) =
     demo_dir @
       [(''My Title.json'', JsonRecord \<lparr>name = ''My Title'', created = ''2024-05-06T07:08:09'',
           conversation = [\<lparr>role = ''user'', content = ''hi''\<rparr>]\<rparr>)]"
    by (simp add: c fp demo_history_dir demo_active demo_now)
  note r2 = cmd_exit_contract[where w = demo_state and ev = ?ev2 and title = "''?''"]
  from r2 ne un g2 obtain fn2 p2 where
    a2: "unique_path (history_dir demo_state)
          (if sanitize_filename ''?'' \<noteq> [] then sanitize_filename ''?''
           else now_strftime ?ev2) = (fn2, p2)"
    and c2: "history_dir (snd (cmd_exit ?ev2 demo_state)) =
           history_dir demo_state @
             [(p2, JsonRecord \<lparr>name = fn2, created = now_isoformat ?ev2, conversation = active demo_state\<rparr>)]"
    by blast
  from a2 have fp2: "fn2 = ''2024-05-06_07-08-09''" "p2 = ''2024-05-06_07-08-09.json''"
    by (simp_all add: s4 demo_now demo_unique_stamp)
  have 4: "history_dir (snd (cmd_exit ?ev2 demo_state)) =
     demo_dir @
       [(''2024-05-06_07-08-09.json'',
         JsonRecord \<lparr>name = ''2024-05-06_07-08-09'', created = ''2024-05-06T07:08:09'',
           conversation = [\<lparr>role = ''user'', content = ''hi''\<rparr>]\<rparr>)]"
    by (simp add: c2 fp2 demo_history_dir demo_active demo_now)
  have 5: "cmd_exit failing_env demo_state = (Inl (APIError ''Connection error.''), demo_state)"
    using cmd_exit_contract[where w = demo_state and ev = failing_env
        and e = "APIError ''Connection error.''"] ne un g3
    by blast
  have ln: "current_name ?L = Some ''x''" by (simp add: demo_loaded)
  have ld: "history_dir ?L = history_dir demo_state"
    by (simp add: demo_loaded load_history_dir)
  have la: "active ?L = [\<lparr>role = ''user'', content = ''old''\<rparr>]"
    by (simp add: demo_loaded active_def)
  have lne: "active ?L \<noteq> []" by (simp add: la)
  have lx: "os_path_exists (history_dir ?L) (json_path ''x'')"
    by (simp add: ld demo_history_dir demo_dir_def os_path_exists_def json_path_def)
  have xn: "''x'' \<noteq> []" by simp
  note r3 = cmd_exit_contract[where w = ?L and ev = demo_env and n = "''x''"]
  from r3 lne ln xn obtain fn3 p3 where
    a3: "unique_path (history_dir ?L) ''x'' = (fn3, p3)"
    and c3: "history_dir (snd (cmd_exit demo_env ?L)) =
           history_dir ?L @
             [(p3, JsonRecord \<lparr>name = fn3, created = now_isoformat demo_env, conversation = active ?L\<rparr>)]"
    by blast
  from a3 have fp3: "fn3 = ''x-2''" "p3 = ''x-2.json''"
    by (simp_all add: ld demo_unique)
  have 6: "history_dir (snd (cmd_exit demo_env ?L)) =
     demo_dir @
       [(''x-2.json'', JsonRecord \<lparr>name = ''x-2'', created = ''2024-05-06T07:08:09'',
           conversation = [\<lparr>role = ''user'', content = ''old''\<rparr>]\<rparr>)]"
    by (simp add: c3 fp3 ld la demo_history_dir demo_now)
  have "loop_body demo_env ''exit'' demo_state = (Inr False, snd (cmd_exit demo_env demo_state))"
    using r1 2 by blast
  then have 7: "fst (loop_body demo_env ''exit'' demo_state) = Inr False" by simp
  show ?thesis using 1 2 3 4 5 ln lx 6 7 names_match_demo rr rn rf by blast
qed

end
